theory Spec2Isabelle
  imports Complex_Main "HOL-Library.Multiset" "HOL-Library.Product_Lexorder"
begin

section \<open>JavaScript values\<close>

text \<open>
  The persistence layer is written in JavaScript and hands its values to PostgreSQL.
  A value is one of the primitives the layer works with, or a \<open>Date\<close> (milliseconds
  since the epoch).  Only integral numbers are values here: they stand for the integers a
  JavaScript number holds exactly, up to \<open>max_safe_integer\<close> in magnitude.
\<close>

definition max_safe_integer :: int where
  "max_safe_integer = 9007199254740991"

datatype jsval =
    JUndefined
  | JNull
  | JBool bool
  | JNum int
  | JStr string
  | JDate int

text \<open>Truthiness, as \<open>if (v)\<close>, \<open>v ? a : b\<close> and \<open>v || d\<close> test it.\<close>

fun truthy :: "jsval \<Rightarrow> bool" where
  "truthy JUndefined = False"
| "truthy JNull = False"
| "truthy (JBool b) = b"
| "truthy (JNum n) = (n \<noteq> 0)"
| "truthy (JStr s) = (s \<noteq> [])"
| "truthy (JDate t) = True"

definition js_or :: "jsval \<Rightarrow> jsval \<Rightarrow> jsval" where
  "js_or v d = (if truthy v then v else d)"

text \<open>An object literal: a property that is absent reads as \<open>undefined\<close>.\<close>

type_synonym jsobj = "string \<Rightarrow> jsval"

definition empty_obj :: jsobj where
  "empty_obj = (\<lambda>k. JUndefined)"

text \<open>Decimal rendering of an integer, as a template literal produces it.\<close>

definition digit_char :: "nat \<Rightarrow> char" where
  "digit_char d = ''0123456789'' ! d"

fun show_nat :: "nat \<Rightarrow> string" where
  "show_nat n = (if n < 10 then [digit_char n] else show_nat (n div 10) @ [digit_char (n mod 10)])"

definition show_int :: "int \<Rightarrow> string" where
  "show_int i = (if i < 0 then CHR ''-'' # show_nat (nat (- i)) else show_nat (nat i))"

text \<open>
  \<open>String(v)\<close>, which a template literal applies to an embedded value.  The rendering of
  a \<open>Date\<close> depends on the locale and the time zone of the process, and a number beyond
  the safe integers is written with an exponent: both are left to the parameter \<open>other\<close>.
\<close>

fun js_to_string :: "(jsval \<Rightarrow> string) \<Rightarrow> jsval \<Rightarrow> string" where
  "js_to_string other JUndefined = ''undefined''"
| "js_to_string other JNull = ''null''"
| "js_to_string other (JBool b) = (if b then ''true'' else ''false'')"
| "js_to_string other (JNum n) =
     (if \<bar>n\<bar> \<le> max_safe_integer then show_int n else other (JNum n))"
| "js_to_string other (JStr s) = s"
| "js_to_string other (JDate t) = other (JDate t)"

text \<open>
  What a \<open>throw\<close> or a rejected promise carries: \<open>undefined\<close>, \<open>null\<close>, any other value,
  or the \<open>TypeError\<close> the runtime raises when a property of \<open>undefined\<close> or \<open>null\<close> is
  read.
\<close>

datatype 'e thrown = ThrownUndefined | ThrownNull | Thrown 'e | TypeError

definition nullish :: "'e thrown \<Rightarrow> bool" where
  "nullish x = (x = ThrownUndefined \<or> x = ThrownNull)"

section \<open>Retry with exponential backoff (utils/error-handler.js)\<close>

text \<open>
  What \<open>retry\<close> does is observable as a sequence of events: the invocations of the
  operation, the calls of the \<open>onRetry\<close> hook and the delays handed to \<open>setTimeout\<close>.
  The operation is given by the outcome of its k-th invocation (\<open>Inl\<close> is a rejection,
  with the value it rejects with); the hook by what it does when called (\<open>Some x\<close>: it
  throws \<open>x\<close>).  The number of attempts is an integer.

  Delays are JavaScript numbers, and the code multiplies them as such.  That arithmetic
  is a parameter: \<open>literal\<close> is the number an integer literal of the source denotes,
  \<open>multiply\<close> is the operator \<open>*\<close>.
\<close>

datatype ('e, 'n) event = Invoke int | OnRetry "'e thrown" int | Sleep 'n

type_synonym 'e hook = "'e thrown \<Rightarrow> int \<Rightarrow> 'e thrown option"

record 'n arithmetic =
  literal :: "int \<Rightarrow> 'n"
  multiply :: "'n \<Rightarrow> 'n \<Rightarrow> 'n"

record ('e, 'n) retry_options =
  maxAttempts :: "int option"
  delayMs :: "'n option"
  backoffMultiplier :: "'n option"
  onRetry :: "'e hook option"

text \<open>\<open>if (onRetry) { onRetry(error, attempt); }\<close>: what it throws, and its trace.\<close>

definition hook_throws :: "'e hook option \<Rightarrow> 'e thrown \<Rightarrow> int \<Rightarrow> 'e thrown option" where
  "hook_throws h error attempt = (case h of None \<Rightarrow> None | Some f \<Rightarrow> f error attempt)"

definition hook_events :: "'e hook option \<Rightarrow> 'e thrown \<Rightarrow> int \<Rightarrow> ('e, 'n) event list" where
  "hook_events h error attempt = (case h of None \<Rightarrow> [] | Some f \<Rightarrow> [OnRetry error attempt])"

definition after :: "'ev list \<Rightarrow> 'r \<times> 'ev list \<Rightarrow> 'r \<times> 'ev list" where
  "after evs r = (fst r, evs @ snd r)"

text \<open>
  The \<open>for\<close> loop.  The result is the returned value (\<open>Inr\<close>) or the thrown one
  (\<open>Inl\<close>).  Before it sleeps the loop logs a warning with \<open>error.message\<close>: reading
  that property of \<open>undefined\<close> or \<open>null\<close> throws a \<open>TypeError\<close>, which leaves the
  function.  The logger itself is taken not to throw.
\<close>

function retry_loop ::
  "('n \<Rightarrow> 'n \<Rightarrow> 'n) \<Rightarrow> (int \<Rightarrow> 'e thrown + 'a) \<Rightarrow> int \<Rightarrow> 'n \<Rightarrow> 'e hook option
    \<Rightarrow> int \<Rightarrow> 'n \<Rightarrow> 'e thrown \<Rightarrow> ('e thrown + 'a) \<times> ('e, 'n) event list" where
  "retry_loop mul fn maxA factor h attempt delay lastError =
     (if attempt \<le> maxA then
        (case fn attempt of
           Inr v \<Rightarrow> (Inr v, [Invoke attempt])
         | Inl error \<Rightarrow>
             (if attempt < maxA then
                (case hook_throws h error attempt of
                   Some thrown \<Rightarrow>
                     (Inl thrown, Invoke attempt # hook_events h error attempt)
                 | None \<Rightarrow>
                     (if nullish error
                      then (Inl TypeError, Invoke attempt # hook_events h error attempt)
                      else
                        after (Invoke attempt # hook_events h error attempt @ [Sleep delay])
                          (retry_loop mul fn maxA factor h (attempt + 1) (mul delay factor) error)))
              else
                after [Invoke attempt]
                  (retry_loop mul fn maxA factor h (attempt + 1) delay error)))
      else (Inl lastError, []))"
  by pat_completeness auto
termination
  by (relation "measure (\<lambda>(mul, fn, maxA, factor, h, attempt, delay, lastError). nat (maxA + 1 - attempt))") auto

text \<open>
  The destructuring defaults of \<open>options\<close> apply to a property that is \<open>undefined\<close>
  (\<open>None\<close>); \<open>lastError\<close> starts as \<open>undefined\<close>.
\<close>

definition retry ::
  "'n arithmetic \<Rightarrow> (int \<Rightarrow> 'e thrown + 'a) \<Rightarrow> ('e, 'n) retry_options
    \<Rightarrow> ('e thrown + 'a) \<times> ('e, 'n) event list" where
  "retry ar fn options =
     retry_loop (multiply ar) fn
       (case maxAttempts options of None \<Rightarrow> 3 | Some n \<Rightarrow> n)
       (case backoffMultiplier options of None \<Rightarrow> literal ar 2 | Some m \<Rightarrow> m)
       (onRetry options)
       1
       (case delayMs options of None \<Rightarrow> literal ar 1000 | Some d \<Rightarrow> d)
       ThrownUndefined"

text \<open>
  The words of the specification: an option or its default; the delay after attempt
  \<open>k\<close>, the initial delay multiplied \<open>k - 1\<close> times by the multiplier; what a failing
  attempt that is retried leaves in the trace.
\<close>

definition or_default :: "'a option \<Rightarrow> 'a \<Rightarrow> 'a" where
  "or_default given d = (case given of None \<Rightarrow> d | Some x \<Rightarrow> x)"

definition backoff_delay :: "('n \<Rightarrow> 'n \<Rightarrow> 'n) \<Rightarrow> 'n \<Rightarrow> 'n \<Rightarrow> int \<Rightarrow> 'n" where
  "backoff_delay mul d m k = ((\<lambda>x. mul x m) ^^ nat (k - 1)) d"

definition retried_attempt ::
  "('n \<Rightarrow> 'n \<Rightarrow> 'n) \<Rightarrow> (int \<Rightarrow> 'e thrown + 'a) \<Rightarrow> bool \<Rightarrow> 'n \<Rightarrow> 'n \<Rightarrow> int
    \<Rightarrow> ('e, 'n) event list" where
  "retried_attempt mul fn hooked d m k =
     Invoke k # (if hooked then [OnRetry (projl (fn k)) k] else [])
       @ [Sleep (backoff_delay mul d m k)]"

definition fails_with_error :: "'e thrown + 'a \<Rightarrow> bool" where
  "fails_with_error r = (case r of Inl x \<Rightarrow> \<not> nullish x | Inr v \<Rightarrow> False)"

fun invocations :: "('e, 'n) event list \<Rightarrow> int list" where
  "invocations [] = []"
| "invocations (Invoke k # evs) = k # invocations evs"
| "invocations (ev # evs) = invocations evs"

fun sleeps :: "('e, 'n) event list \<Rightarrow> 'n list" where
  "sleeps [] = []"
| "sleeps (Sleep d # evs) = d # sleeps evs"
| "sleeps (ev # evs) = sleeps evs"

text \<open>Exact arithmetic on the integers, for the examples.\<close>

definition exact :: "int arithmetic" where
  "exact = \<lparr>literal = (\<lambda>i. i), multiply = (\<lambda>a b. a * b)\<rparr>"

section \<open>The database (schema.sql)\<close>

text \<open>
  A row maps a column name to the value stored in it; \<open>JNull\<close> is SQL's \<open>NULL\<close>.  A
  \<open>TIMESTAMPTZ\<close> holds a \<open>JDate\<close>, an \<open>INTEGER\<close> or \<open>NUMERIC\<close> a \<open>JNum\<close>, a \<open>VARCHAR\<close> or
  \<open>TEXT\<close> a \<open>JStr\<close>, a \<open>BOOLEAN\<close> a \<open>JBool\<close>.  A table is the list of its rows, in the
  order of their insertion.
\<close>

type_synonym row = "string \<Rightarrow> jsval"

record database =
  time_series_data :: "row list"
  whale_wallets :: "row list"
  twitter_sentiment :: "row list"
  validator_metrics :: "row list"
  anomalies :: "row list"

text \<open>
  What the database answers to a statement it does not carry out: a value that a column
  or an operation does not take (the errors of SQLSTATE class 22: a text that is not of
  the type, a number out of range, a string too long), or \<open>NULL\<close> in a \<open>NOT NULL\<close> column.
\<close>

datatype db_error =
    DataException
  | NotNullViolation string

datatype coltype =
    Timestamptz
  | Integer
  | Numeric nat nat
  | Varchar nat
  | Text
  | Boolean

text \<open>The driver sends \<open>undefined\<close> as \<open>NULL\<close>; every other value as it is.\<close>

definition bind :: "jsval \<Rightarrow> jsval" where
  "bind v = (if v = JUndefined then JNull else v)"

text \<open>
  A bound value reaches the server as text, and the server reads the text as a value of
  the column's type or rejects it.  That conversion is PostgreSQL's and the driver's; it
  is the parameter \<open>cast\<close>, which gives the value stored for a bound value that is not
  \<open>NULL\<close>, or \<open>None\<close> when the server rejects it.  \<open>NULL\<close> is \<open>NULL\<close> in every type.
\<close>

type_synonym cast = "coltype \<Rightarrow> jsval \<Rightarrow> jsval option"

definition to_column :: "cast \<Rightarrow> coltype \<Rightarrow> jsval \<Rightarrow> jsval option" where
  "to_column cast ty v = (if bind v = JNull then Some JNull else cast ty v)"

text \<open>
  A value of the \<open>VALUES\<close> list: a parameter \<open>$n\<close> with the value bound to it, or a value
  the server computes itself, such as \<open>NOW()\<close>.
\<close>

datatype sqlarg = Bound jsval | Direct jsval

type_synonym schema = "(string \<times> coltype) list"

fun column_value :: "cast \<Rightarrow> schema \<Rightarrow> string \<Rightarrow> sqlarg \<Rightarrow> jsval option" where
  "column_value cast sch c (Direct v) = Some v"
| "column_value cast sch c (Bound v) =
     (case map_of sch c of None \<Rightarrow> None | Some ty \<Rightarrow> to_column cast ty v)"

text \<open>
  SQL's three-valued logic: \<open>None\<close> is \<open>NULL\<close> (unknown).  A comparison with \<open>NULL\<close> is
  unknown; \<open>WHERE\<close> and \<open>ON CONFLICT\<close> take a row only when the condition is true.
\<close>

definition sql_eq :: "jsval \<Rightarrow> jsval \<Rightarrow> bool option" where
  "sql_eq a b = (if a = JNull \<or> b = JNull then None else Some (a = b))"

fun sql_lt :: "jsval \<Rightarrow> jsval \<Rightarrow> bool option" where
  "sql_lt (JDate a) (JDate b) = Some (a < b)"
| "sql_lt (JNum a) (JNum b) = Some (a < b)"
| "sql_lt a b = None"


fun sql_and :: "bool option \<Rightarrow> bool option \<Rightarrow> bool option" where
  "sql_and (Some False) q = Some False"
| "sql_and p (Some False) = Some False"
| "sql_and (Some True) (Some True) = Some True"
| "sql_and p q = None"

definition holds :: "bool option \<Rightarrow> bool" where
  "holds p = (p = Some True)"

text \<open>\<open>NOW() - INTERVAL 'n days'\<close> and \<open>'n hours'\<close>, with days of 24 hours (a session in UTC).\<close>

definition ms_per_hour :: int where
  "ms_per_hour = 3600000"

definition ms_per_day :: int where
  "ms_per_day = 24 * ms_per_hour"

definition days_ago :: "int \<Rightarrow> int \<Rightarrow> jsval" where
  "days_ago now n = JDate (now - n * ms_per_day)"

text \<open>
  The row an \<open>INSERT\<close> proposes: the listed columns paired with the values by position,
  each value converted to its column; a column that is not listed is \<open>NULL\<close> until its
  default is filled in.  One value that the server rejects fails the statement.
\<close>

definition row_of :: "string list \<Rightarrow> jsval list \<Rightarrow> row" where
  "row_of cols vals = (\<lambda>c. case map_of (zip cols vals) c of Some v \<Rightarrow> v | None \<Rightarrow> JNull)"

definition insert_values :: "cast \<Rightarrow> schema \<Rightarrow> string list \<Rightarrow> sqlarg list \<Rightarrow> db_error + row" where
  "insert_values cast sch cols args =
     (case those (map (\<lambda>ca. column_value cast sch (fst ca) (snd ca)) (zip cols args)) of
        None \<Rightarrow> Inl DataException
      | Some vals \<Rightarrow> Inr (row_of cols vals))"

text \<open>The \<open>NOT NULL\<close> constraints, checked on the row once its defaults are filled in.\<close>

definition check_not_null :: "string list \<Rightarrow> row \<Rightarrow> db_error + row" where
  "check_not_null cols r =
     (case find (\<lambda>c. r c = JNull) cols of
        Some c \<Rightarrow> Inl (NotNullViolation c)
      | None \<Rightarrow> Inr r)"

text \<open>\<open>SET c = EXCLUDED.c\<close> for the columns \<open>cols\<close>.\<close>

definition set_excluded :: "string list \<Rightarrow> row \<Rightarrow> row \<Rightarrow> row" where
  "set_excluded cols excluded existing = (\<lambda>c. if c \<in> set cols then excluded c else existing c)"

text \<open>
  \<open>INSERT ... ON CONFLICT (key) DO UPDATE\<close>: a row whose key equals the proposed one is
  updated in place; without one the proposed row is appended.
\<close>

definition conflicts :: "string \<Rightarrow> row \<Rightarrow> row \<Rightarrow> bool" where
  "conflicts key excluded r = holds (sql_eq (r key) (excluded key))"

definition on_conflict_update :: "string \<Rightarrow> (row \<Rightarrow> row \<Rightarrow> row) \<Rightarrow> row \<Rightarrow> row list \<Rightarrow> row list" where
  "on_conflict_update key update excluded rows =
     (if list_ex (conflicts key excluded) rows
      then map (\<lambda>r. if conflicts key excluded r then update excluded r else r) rows
      else rows @ [excluded])"

text \<open>\<open>RETURNING cols\<close> read as \<open>result.rows[0]\<close>: the row written, if any.\<close>

definition project :: "string list \<Rightarrow> row \<Rightarrow> row" where
  "project cols r = (\<lambda>c. if c \<in> set cols then r c else JUndefined)"

definition returning :: "string list \<Rightarrow> row list \<Rightarrow> row option" where
  "returning cols written = (case written of [] \<Rightarrow> None | r # rs \<Rightarrow> Some (project cols r))"

text \<open>The \<open>UNIQUE\<close> constraint on a column: no value other than \<open>NULL\<close> occurs twice.\<close>

definition unique_on :: "string \<Rightarrow> row list \<Rightarrow> bool" where
  "unique_on key rows = distinct (filter (\<lambda>v. v \<noteq> JNull) (map (\<lambda>r. r key) rows))"

section \<open>Metric snapshots (queries.js: insertTimeSeriesData)\<close>

text \<open>The table, as \<open>CREATE TABLE time_series_data\<close> declares it.\<close>

definition time_series_data_schema :: schema where
  "time_series_data_schema =
     [(''id'', Integer),
      (''timestamp'', Timestamptz),
      (''tvl_usd'', Numeric 20 2),
      (''tvl_eth'', Numeric 20 8),
      (''tvl_change_percent'', Numeric 10 4),
      (''unique_stakers'', Integer),
      (''new_stakers_24h'', Integer),
      (''deposit_count_24h'', Integer),
      (''withdrawal_count_24h'', Integer),
      (''total_volume_eth_24h'', Numeric 20 8),
      (''avg_transaction_size_eth'', Numeric 20 8),
      (''withdrawal_queue_size'', Integer),
      (''withdrawal_queue_eth'', Numeric 20 8),
      (''avg_withdrawal_wait_time_hours'', Numeric 10 2),
      (''eeth_eth_price_ratio'', Numeric 10 8),
      (''peg_deviation_percent'', Numeric 10 4),
      (''avg_gas_price_gwei'', Numeric 10 2),
      (''median_gas_price_gwei'', Numeric 10 2),
      (''total_validators'', Integer),
      (''active_validators'', Integer),
      (''data_source'', Varchar 50),
      (''collection_status'', Varchar 20),
      (''error_message'', Text)]"

definition time_series_data_not_null :: "string list" where
  "time_series_data_not_null = [''id'', ''timestamp'']"

definition time_series_columns :: "string list" where
  "time_series_columns =
     [''timestamp'', ''tvl_usd'', ''tvl_eth'', ''tvl_change_percent'',
      ''unique_stakers'', ''new_stakers_24h'',
      ''deposit_count_24h'', ''withdrawal_count_24h'', ''total_volume_eth_24h'',
      ''avg_transaction_size_eth'',
      ''withdrawal_queue_size'', ''withdrawal_queue_eth'', ''avg_withdrawal_wait_time_hours'',
      ''eeth_eth_price_ratio'', ''peg_deviation_percent'',
      ''avg_gas_price_gwei'', ''median_gas_price_gwei'',
      ''total_validators'', ''active_validators'',
      ''data_source'', ''collection_status'', ''error_message'']"

text \<open>The array \<open>values\<close>; \<open>now\<close> is what \<open>new Date()\<close> reads.\<close>

definition time_series_params :: "int \<Rightarrow> jsobj \<Rightarrow> jsval list" where
  "time_series_params now data =
     [js_or (data ''timestamp'') (JDate now),
      data ''tvl_usd'',
      data ''tvl_eth'',
      data ''tvl_change_percent'',
      data ''unique_stakers'',
      data ''new_stakers_24h'',
      data ''deposit_count_24h'',
      data ''withdrawal_count_24h'',
      data ''total_volume_eth_24h'',
      data ''avg_transaction_size_eth'',
      data ''withdrawal_queue_size'',
      data ''withdrawal_queue_eth'',
      data ''avg_withdrawal_wait_time_hours'',
      data ''eeth_eth_price_ratio'',
      data ''peg_deviation_percent'',
      data ''avg_gas_price_gwei'',
      data ''median_gas_price_gwei'',
      data ''total_validators'',
      data ''active_validators'',
      js_or (data ''data_source'') (JStr ''blockchain''),
      js_or (data ''collection_status'') (JStr ''success''),
      js_or (data ''error_message'') JNull]"

definition time_series_mutable :: "string list" where
  "time_series_mutable = [''tvl_usd'', ''tvl_eth'', ''unique_stakers'', ''collection_status'']"

text \<open>
  The proposed row, or the error that rejects the statement.  The \<open>id\<close> is the default
  of the column: \<open>drawn\<close>, the number the sequence yields for this statement.
\<close>

definition time_series_proposed :: "cast \<Rightarrow> int \<Rightarrow> int \<Rightarrow> jsobj \<Rightarrow> db_error + row" where
  "time_series_proposed cast now drawn data =
     (case insert_values cast time_series_data_schema time_series_columns
             (map Bound (time_series_params now data)) of
        Inl e \<Rightarrow> Inl e
      | Inr r \<Rightarrow> check_not_null time_series_data_not_null (r(''id'' := JNum drawn)))"

definition insertTimeSeriesData ::
  "cast \<Rightarrow> int \<Rightarrow> int \<Rightarrow> jsobj \<Rightarrow> database \<Rightarrow> db_error + (row option \<times> database)" where
  "insertTimeSeriesData cast now drawn data db =
     (case time_series_proposed cast now drawn data of
        Inl e \<Rightarrow> Inl e
      | Inr excluded \<Rightarrow>
          (let rows = on_conflict_update ''timestamp'' (set_excluded time_series_mutable)
                        excluded (time_series_data db)
           in Inr (returning [''id'', ''timestamp''] (filter (conflicts ''timestamp'' excluded) rows),
                   db\<lparr>time_series_data := rows\<rparr>)))"

text \<open>
  The specification's reading of a snapshot: the value it carries for a column, with the
  defaults of the four optional fields, and what the table stores for that value.
\<close>

definition snapshot_value :: "int \<Rightarrow> jsobj \<Rightarrow> string \<Rightarrow> jsval" where
  "snapshot_value now data c =
     (if c = ''timestamp'' then js_or (data c) (JDate now)
      else if c = ''data_source'' then js_or (data c) (JStr ''blockchain'')
      else if c = ''collection_status'' then js_or (data c) (JStr ''success'')
      else if c = ''error_message'' then js_or (data c) JNull
      else data c)"

definition snapshot_stored :: "cast \<Rightarrow> int \<Rightarrow> jsobj \<Rightarrow> string \<Rightarrow> jsval option" where
  "snapshot_stored cast now data c =
     column_value cast time_series_data_schema c (Bound (snapshot_value now data c))"

definition rows_at :: "string \<Rightarrow> jsval \<Rightarrow> row list \<Rightarrow> row list" where
  "rows_at key v rows = filter (\<lambda>r. r key = v) rows"

section \<open>Whale wallets (queries.js: upsertWhaleWallet)\<close>

text \<open>The table, as \<open>CREATE TABLE whale_wallets\<close> declares it.\<close>

definition whale_wallets_schema :: schema where
  "whale_wallets_schema =
     [(''id'', Integer),
      (''address'', Varchar 42),
      (''first_seen'', Timestamptz),
      (''last_updated'', Timestamptz),
      (''current_balance_eeth'', Numeric 20 8),
      (''current_balance_usd'', Numeric 20 2),
      (''balance_24h_ago'', Numeric 20 8),
      (''balance_7d_ago'', Numeric 20 8),
      (''balance_30d_ago'', Numeric 20 8),
      (''change_24h_eeth'', Numeric 20 8),
      (''change_24h_percent'', Numeric 10 4),
      (''change_7d_eeth'', Numeric 20 8),
      (''change_7d_percent'', Numeric 10 4),
      (''total_deposits'', Integer),
      (''total_withdrawals'', Integer),
      (''last_transaction_hash'', Varchar 66),
      (''last_transaction_time'', Timestamptz),
      (''rank_position'', Integer),
      (''label'', Varchar 100),
      (''is_contract'', Boolean),
      (''is_exchange'', Boolean)]"

definition whale_wallets_not_null :: "string list" where
  "whale_wallets_not_null = [''id'', ''address'', ''first_seen'', ''last_updated'']"

definition whale_columns :: "string list" where
  "whale_columns =
     [''address'', ''current_balance_eeth'', ''current_balance_usd'',
      ''balance_24h_ago'', ''balance_7d_ago'', ''balance_30d_ago'',
      ''change_24h_eeth'', ''change_24h_percent'', ''change_7d_eeth'', ''change_7d_percent'',
      ''total_deposits'', ''total_withdrawals'',
      ''last_transaction_hash'', ''last_transaction_time'',
      ''rank_position'', ''label'', ''is_contract'', ''is_exchange'',
      ''last_updated'']"

definition whale_params :: "jsobj \<Rightarrow> jsval list" where
  "whale_params data =
     [data ''address'',
      data ''current_balance_eeth'',
      data ''current_balance_usd'',
      data ''balance_24h_ago'',
      data ''balance_7d_ago'',
      data ''balance_30d_ago'',
      data ''change_24h_eeth'',
      data ''change_24h_percent'',
      data ''change_7d_eeth'',
      data ''change_7d_percent'',
      js_or (data ''total_deposits'') (JNum 0),
      js_or (data ''total_withdrawals'') (JNum 0),
      data ''last_transaction_hash'',
      data ''last_transaction_time'',
      data ''rank_position'',
      data ''label'',
      js_or (data ''is_contract'') (JBool False),
      js_or (data ''is_exchange'') (JBool False)]"

definition whale_refreshed :: "string list" where
  "whale_refreshed =
     [''current_balance_eeth'', ''current_balance_usd'',
      ''change_24h_eeth'', ''change_24h_percent'', ''rank_position'']"

text \<open>
  The nineteenth value of the \<open>INSERT\<close> is \<open>NOW()\<close>, the time of the statement;
  \<open>first_seen\<close> is not listed and takes its default, \<open>NOW()\<close> too, and \<open>id\<close> the number
  \<open>drawn\<close> from its sequence.
\<close>

definition whale_proposed :: "cast \<Rightarrow> int \<Rightarrow> int \<Rightarrow> jsobj \<Rightarrow> db_error + row" where
  "whale_proposed cast now drawn data =
     (case insert_values cast whale_wallets_schema whale_columns
             (map Bound (whale_params data) @ [Direct (JDate now)]) of
        Inl e \<Rightarrow> Inl e
      | Inr r \<Rightarrow>
          check_not_null whale_wallets_not_null
            (r(''id'' := JNum drawn, ''first_seen'' := JDate now)))"

definition whale_update :: "int \<Rightarrow> row \<Rightarrow> row \<Rightarrow> row" where
  "whale_update now excluded existing =
     (set_excluded whale_refreshed excluded existing)(''last_updated'' := JDate now)"

definition upsertWhaleWallet ::
  "cast \<Rightarrow> int \<Rightarrow> int \<Rightarrow> jsobj \<Rightarrow> database \<Rightarrow> db_error + (row option \<times> database)" where
  "upsertWhaleWallet cast now drawn data db =
     (case whale_proposed cast now drawn data of
        Inl e \<Rightarrow> Inl e
      | Inr excluded \<Rightarrow>
          (let rows = on_conflict_update ''address'' (whale_update now) excluded (whale_wallets db)
           in Inr (returning [''id'', ''address''] (filter (conflicts ''address'' excluded) rows),
                   db\<lparr>whale_wallets := rows\<rparr>)))"

text \<open>
  What a call leaves behind: a call that is rejected throws and leaves the table as it
  was.  A sequence of calls, each with the time at which it runs and the number its
  statement draws.
\<close>

definition upsert_step :: "cast \<Rightarrow> int \<times> int \<times> jsobj \<Rightarrow> database \<Rightarrow> database" where
  "upsert_step cast call db =
     (case upsertWhaleWallet cast (fst call) (fst (snd call)) (snd (snd call)) db of
        Inl e \<Rightarrow> db
      | Inr res \<Rightarrow> snd res)"

fun upsert_all :: "cast \<Rightarrow> (int \<times> int \<times> jsobj) list \<Rightarrow> database \<Rightarrow> database" where
  "upsert_all cast [] db = db"
| "upsert_all cast (call # calls) db = upsert_all cast calls (upsert_step cast call db)"

text \<open>The specification's words: the address a call is for, as the table stores it.\<close>

definition address_of :: "cast \<Rightarrow> jsobj \<Rightarrow> jsval option" where
  "address_of cast data = column_value cast whale_wallets_schema ''address'' (Bound (data ''address''))"

section \<open>Anomalies (queries.js: getAnomalyById, getActiveAnomalies; schema.sql)\<close>

text \<open>
  \<open>UPDATE ... WHERE\<close>: every row that satisfies the condition is rewritten; the statement
  fails as a whole when one of the new rows cannot be computed.
\<close>

fun update_where :: "(row \<Rightarrow> bool) \<Rightarrow> (row \<Rightarrow> db_error + row) \<Rightarrow> row list \<Rightarrow> db_error + row list" where
  "update_where cond f [] = Inr []"
| "update_where cond f (r # rs) =
     (case (if cond r then f r else Inr r) of
        Inl e \<Rightarrow> Inl e
      | Inr r' \<Rightarrow> (case update_where cond f rs of Inl e \<Rightarrow> Inl e | Inr rs' \<Rightarrow> Inr (r' # rs')))"

text \<open>
  \<open>view_count + 1\<close> on an \<open>INTEGER\<close> column: \<open>NULL\<close> stays \<open>NULL\<close>, and a sum beyond the
  range of a 32-bit integer is an error.
\<close>

definition int4_max :: int where
  "int4_max = 2147483647"

fun plus_one :: "jsval \<Rightarrow> db_error + jsval" where
  "plus_one (JNum n) = (if n + 1 > int4_max then Inl DataException else Inr (JNum (n + 1)))"
| "plus_one v = Inr JNull"

definition record_view :: "int \<Rightarrow> row \<Rightarrow> db_error + row" where
  "record_view now r =
     (case plus_one (r ''view_count'') of
        Inl e \<Rightarrow> Inl e
      | Inr v \<Rightarrow> Inr (r(''view_count'' := v, ''last_viewed_at'' := JDate now)))"

text \<open>
  \<open>WHERE id = $1\<close>: the parameter is read as an \<open>INTEGER\<close>, the type of \<open>id\<close>, and a
  value that is none rejects the statement.
\<close>

definition has_id :: "jsval \<Rightarrow> row \<Rightarrow> bool" where
  "has_id key r = holds (sql_eq (r ''id'') key)"

text \<open>\<open>RETURNING *\<close> read as \<open>result.rows[0]\<close>: \<open>None\<close> is \<open>undefined\<close>, no row had the id.\<close>

definition getAnomalyById ::
  "cast \<Rightarrow> int \<Rightarrow> jsval \<Rightarrow> database \<Rightarrow> db_error + (row option \<times> database)" where
  "getAnomalyById cast now ident db =
     (case to_column cast Integer ident of
        None \<Rightarrow> Inl DataException
      | Some key \<Rightarrow>
          (case update_where (has_id key) (record_view now) (anomalies db) of
             Inl e \<Rightarrow> Inl e
           | Inr rows \<Rightarrow>
               Inr (case filter (has_id key) rows of [] \<Rightarrow> None | r # rs \<Rightarrow> Some r,
                    db\<lparr>anomalies := rows\<rparr>)))"

subsection \<open>The view \<open>active_anomalies\<close>\<close>

definition active_anomalies_columns :: "string list" where
  "active_anomalies_columns =
     [''id'', ''detected_at'', ''anomaly_type'', ''severity'', ''confidence'',
      ''title'', ''description'', ''affected_metrics'', ''recommendation'']"

text \<open>The \<open>CASE\<close> of the \<open>ORDER BY\<close>: without an \<open>ELSE\<close>, any other severity gives \<open>NULL\<close>.\<close>

definition severity_case :: "jsval \<Rightarrow> int option" where
  "severity_case v =
     (if v = JStr ''CRITICAL'' then Some 1
      else if v = JStr ''HIGH'' then Some 2
      else if v = JStr ''MEDIUM'' then Some 3
      else if v = JStr ''LOW'' then Some 4
      else None)"

text \<open>
  Sort keys: ascending order puts \<open>NULL\<close> last, descending order puts \<open>NULL\<close> first and
  a later time before an earlier one.  Pairs are compared lexicographically.
\<close>

fun asc_nulls_last :: "int option \<Rightarrow> int \<times> int" where
  "asc_nulls_last (Some n) = (0, n)"
| "asc_nulls_last None = (1, 0)"

fun desc_nulls_first :: "jsval \<Rightarrow> int \<times> int" where
  "desc_nulls_first (JDate t) = (1, - t)"
| "desc_nulls_first v = (0, 0)"

definition active_order :: "row \<Rightarrow> (int \<times> int) \<times> (int \<times> int)" where
  "active_order r =
     (asc_nulls_last (severity_case (r ''severity'')), desc_nulls_first (r ''detected_at''))"

definition is_active :: "row \<Rightarrow> bool" where
  "is_active r = holds (sql_eq (r ''status'') (JStr ''active''))"

definition active_anomalies :: "database \<Rightarrow> row list" where
  "active_anomalies db =
     map (project active_anomalies_columns)
       (sort_key active_order (filter is_active (anomalies db)))"

definition getActiveAnomalies :: "database \<Rightarrow> row list" where
  "getActiveAnomalies db = active_anomalies db"

text \<open>
  The specification's ranking: the position of a severity in the list of urgencies, and
  the order it asks of two rows of the listing, the first standing before the second.
\<close>

definition urgency :: "jsval \<Rightarrow> nat" where
  "urgency v =
     length (takeWhile (\<lambda>s. JStr s \<noteq> v) [''CRITICAL'', ''HIGH'', ''MEDIUM'', ''LOW''])"

definition detected :: "row \<Rightarrow> int" where
  "detected r = (case r ''detected_at'' of JDate t \<Rightarrow> t | _ \<Rightarrow> 0)"

definition listed_before :: "row \<Rightarrow> row \<Rightarrow> bool" where
  "listed_before a b =
     (urgency (a ''severity'') < urgency (b ''severity'')
      \<or> (urgency (a ''severity'') = urgency (b ''severity'') \<and> detected b \<le> detected a))"

definition has_detection_time :: "row \<Rightarrow> bool" where
  "has_detection_time r = (case r ''detected_at'' of JDate t \<Rightarrow> True | _ \<Rightarrow> False)"

section \<open>Retention (schema.sql: cleanup_old_data; queries.js: cleanupOldData)\<close>

definition delete_where :: "(row \<Rightarrow> bool option) \<Rightarrow> row list \<Rightarrow> row list" where
  "delete_where cond rows = filter (\<lambda>r. \<not> holds (cond r)) rows"

definition cleanup_old_data :: "int \<Rightarrow> database \<Rightarrow> database" where
  "cleanup_old_data now db =
     db\<lparr>time_series_data :=
          delete_where (\<lambda>r. sql_lt (r ''timestamp'') (days_ago now 90)) (time_series_data db),
        twitter_sentiment :=
          delete_where (\<lambda>r. sql_lt (r ''timestamp'') (days_ago now 60)) (twitter_sentiment db),
        anomalies :=
          delete_where (\<lambda>r. sql_and (sql_eq (r ''status'') (JStr ''resolved''))
                                     (sql_lt (r ''resolved_at'') (days_ago now 90)))
            (anomalies db),
        validator_metrics :=
          delete_where (\<lambda>r. sql_lt (r ''timestamp'') (days_ago now 90)) (validator_metrics db)\<rparr>"

definition cleanupOldData :: "int \<Rightarrow> database \<Rightarrow> database" where
  "cleanupOldData now db = cleanup_old_data now db"

text \<open>The specification's words: a time strictly older than \<open>n\<close> days at \<open>now\<close>.\<close>

definition older_than :: "int \<Rightarrow> int \<Rightarrow> jsval \<Rightarrow> bool" where
  "older_than now n v = (case v of JDate t \<Rightarrow> t < now - n * 86400000 | _ \<Rightarrow> False)"

definition aged_out :: "int \<Rightarrow> row \<Rightarrow> bool" where
  "aged_out now r = (r ''status'' = JStr ''resolved'' \<and> older_than now 90 (r ''resolved_at''))"

section \<open>Baseline statistics (queries.js: getBaselineStats)\<close>














section \<open>Statement texts (queries.js: the read operations)\<close>

text \<open>
  What a read operation hands to \<open>query\<close>: the text of the statement and the array of
  bound parameters (empty when the call passes none).
\<close>

type_synonym statement = "string \<times> jsval list"

definition nl :: string where
  "nl = [CHR 0x0A]"

definition apostrophe :: string where
  "apostrophe = [CHR 0x27]"

text \<open>A parameter with a default: the default stands in for \<open>undefined\<close> only.\<close>

definition default_param :: "jsval \<Rightarrow> jsval \<Rightarrow> jsval" where
  "default_param d v = (if v = JUndefined then d else v)"

definition getTimeSeriesData_statement :: "(jsval \<Rightarrow> string) \<Rightarrow> jsval \<Rightarrow> jsval \<Rightarrow> statement" where
  "getTimeSeriesData_statement other hours_arg limit_arg =
     (let hours = default_param (JNum 24) hours_arg;
          limit = default_param JNull limit_arg
      in (nl @
          ''    SELECT * FROM time_series_data'' @ nl @
          ''    WHERE timestamp >= NOW() - INTERVAL '' @ apostrophe @ js_to_string other hours @ '' hours'' @ apostrophe @ nl @
          ''    ORDER BY timestamp DESC'' @ nl @
          ''    '' @ (if truthy limit then ''LIMIT '' @ js_to_string other limit else []) @ nl @
          ''  '',
          []))"

definition getSentimentStats_statement :: "(jsval \<Rightarrow> string) \<Rightarrow> jsval \<Rightarrow> statement" where
  "getSentimentStats_statement other hours_arg =
     (let hours = default_param (JNum 24) hours_arg
      in (nl @
          ''    SELECT'' @ nl @
          ''      AVG(sentiment_score) as avg_sentiment,'' @ nl @
          ''      COUNT(*) FILTER (WHERE sentiment_label = '' @ apostrophe @ ''positive'' @ apostrophe @ '') as positive_count,'' @ nl @
          ''      COUNT(*) FILTER (WHERE sentiment_label = '' @ apostrophe @ ''negative'' @ apostrophe @ '') as negative_count,'' @ nl @
          ''      COUNT(*) FILTER (WHERE sentiment_label = '' @ apostrophe @ ''neutral'' @ apostrophe @ '') as neutral_count,'' @ nl @
          ''      COUNT(*) as total_tweets,'' @ nl @
          ''      SUM(retweet_count) as total_retweets,'' @ nl @
          ''      SUM(like_count) as total_likes'' @ nl @
          ''    FROM twitter_sentiment'' @ nl @
          ''    WHERE timestamp >= NOW() - INTERVAL '' @ apostrophe @ js_to_string other hours @ '' hours'' @ apostrophe @ nl @
          ''  '',
          []))"

definition getTopWhales_statement :: "jsval \<Rightarrow> statement" where
  "getTopWhales_statement limit_arg =
     (let limit = default_param (JNum 20) limit_arg
      in (nl @
          ''    SELECT * FROM whale_wallets'' @ nl @
          ''    ORDER BY current_balance_eeth DESC'' @ nl @
          ''    LIMIT $1'' @ nl @
          ''  '',
          [limit]))"

subsection \<open>The filters of \<open>getAnomalies\<close>\<close>

text \<open>
  The function threads \<open>sql\<close>, \<open>values\<close> and \<open>paramCount\<close> through its \<open>if\<close> statements;
  each of the first four has the shape of \<open>add_filter\<close>.
\<close>

definition add_filter :: "string \<Rightarrow> jsval \<Rightarrow> string \<times> jsval list \<times> nat \<Rightarrow> string \<times> jsval list \<times> nat" where
  "add_filter clause v st =
     (case st of (sql, vals, paramCount) \<Rightarrow>
        if truthy v then (sql @ clause @ ''$'' @ show_nat paramCount, vals @ [v], paramCount + 1)
        else (sql, vals, paramCount))"

definition getAnomalies_statement :: "jsobj \<Rightarrow> statement" where
  "getAnomalies_statement filters =
     (case add_filter '' AND detected_at >= '' (filters ''since'')
            (add_filter '' AND anomaly_type = '' (filters ''type'')
              (add_filter '' AND severity = '' (filters ''severity'')
                (add_filter '' AND status = '' (filters ''status'')
                  (''SELECT * FROM anomalies WHERE 1=1'', [], 1)))) of
        (sql, vals, paramCount) \<Rightarrow>
          if truthy (filters ''limit'')
          then (sql @ '' ORDER BY detected_at DESC'' @ '' LIMIT $'' @ show_nat paramCount,
                vals @ [filters ''limit''])
          else (sql @ '' ORDER BY detected_at DESC'', vals))"

text \<open>
  The specification's composition, for a given reading \<open>present\<close> of "the filter is
  present": one clause and one parameter for each recognized filter that is present, in
  their fixed order and numbered from 1, the ordering, and the limit as the last parameter.
\<close>

definition recognized_filters :: "(string \<times> string) list" where
  "recognized_filters =
     [(''status'', '' AND status = ''), (''severity'', '' AND severity = ''),
      (''type'', '' AND anomaly_type = ''), (''since'', '' AND detected_at >= '')]"

fun numbered_clauses :: "nat \<Rightarrow> string list \<Rightarrow> string" where
  "numbered_clauses k [] = []"
| "numbered_clauses k (c # cs) = c @ ''$'' @ show_nat k @ numbered_clauses (Suc k) cs"

definition composed_statement :: "(jsval \<Rightarrow> bool) \<Rightarrow> jsobj \<Rightarrow> statement" where
  "composed_statement present filters =
     (let chosen = filter (\<lambda>kc. present (filters (fst kc))) recognized_filters
      in (''SELECT * FROM anomalies WHERE 1=1'' @ numbered_clauses 1 (map snd chosen)
            @ '' ORDER BY detected_at DESC''
            @ (if present (filters ''limit'')
               then '' LIMIT $'' @ show_nat (length chosen + 1) else []),
          map (\<lambda>kc. filters (fst kc)) chosen
            @ (if present (filters ''limit'') then [filters ''limit''] else [])))"

definition defined :: "jsval \<Rightarrow> bool" where
  "defined v = (v \<noteq> JUndefined)"

text \<open>The specification's validation of a row limit.\<close>

definition positive_integer :: "jsval \<Rightarrow> bool" where
  "positive_integer v = (case v of JNum n \<Rightarrow> 0 < n | _ \<Rightarrow> False)"

section \<open>The transaction runner (db-connection.js: transaction)\<close>










section \<open>Example data\<close>

text \<open>Concrete inputs at which the theorems below are instantiated.\<close>

text \<open>
  A conversion for the examples.  It takes a number into an \<open>INTEGER\<close> or \<open>NUMERIC\<close>
  column that has room for it, a text of decimal digits into an \<open>INTEGER\<close> column, a
  \<open>Date\<close> and the one timestamp text of the examples into a \<open>TIMESTAMPTZ\<close> column, a
  string into a text column that is long enough, a boolean into a \<open>BOOLEAN\<close> column, and
  nothing else (PostgreSQL takes more).
\<close>

definition digit_value :: "char \<Rightarrow> int option" where
  "digit_value ch = map_of (zip ''0123456789'' [0, 1, 2, 3, 4, 5, 6, 7, 8, 9]) ch"

definition read_digits :: "string \<Rightarrow> int option" where
  "read_digits s =
     (if s = [] then None
      else fold (\<lambda>ch acc. case acc of None \<Rightarrow> None
                  | Some a \<Rightarrow> map_option (\<lambda>d. 10 * a + d) (digit_value ch)) s (Some 0))"

definition in_int4 :: "int \<Rightarrow> bool" where
  "in_int4 n = (- 2147483648 \<le> n \<and> n \<le> 2147483647)"

fun sample_cast :: cast where
  "sample_cast Integer (JNum n) = (if in_int4 n then Some (JNum n) else None)"
| "sample_cast Integer (JStr s) =
     (case read_digits s of None \<Rightarrow> None
      | Some n \<Rightarrow> if in_int4 n then Some (JNum n) else None)"
| "sample_cast (Numeric p s) (JNum n) = (if \<bar>n\<bar> < 10 ^ (p - s) then Some (JNum n) else None)"
| "sample_cast Timestamptz (JDate t) = Some (JDate t)"
| "sample_cast Timestamptz (JStr s) =
     (if s = ''2023-11-14T22:13:20.000Z'' then Some (JDate 1700000000000) else None)"
| "sample_cast (Varchar k) (JStr s) = (if length s \<le> k then Some (JStr s) else None)"
| "sample_cast Text (JStr s) = Some (JStr s)"
| "sample_cast Boolean (JBool b) = Some (JBool b)"
| "sample_cast ty v = None"

definition db0 :: database where
  "db0 = \<lparr>time_series_data = [], whale_wallets = [], twitter_sentiment = [],
     validator_metrics = [], anomalies = []\<rparr>"

definition ts_first :: jsobj where
  "ts_first = empty_obj(''timestamp'' := JDate 1700000000000, ''tvl_usd'' := JNum 100,
     ''tvl_eth'' := JNum 5, ''unique_stakers'' := JNum 7, ''total_validators'' := JNum 3,
     ''collection_status'' := JStr ''partial'')"

definition ts_second :: jsobj where
  "ts_second = empty_obj(''timestamp'' := JStr ''2023-11-14T22:13:20.000Z'', ''tvl_usd'' := JNum 250,
     ''tvl_eth'' := JNum 9, ''unique_stakers'' := JNum 8, ''total_validators'' := JNum 4)"

text \<open>The second snapshot with a number of stakers that an \<open>INTEGER\<close> does not hold.\<close>

definition ts_rejected :: jsobj where
  "ts_rejected = ts_second(''unique_stakers'' := JNum 2147483648)"

definition whale_a1 :: jsobj where
  "whale_a1 = empty_obj(''address'' := JStr ''0xaa'', ''current_balance_eeth'' := JNum 1000,
     ''current_balance_usd'' := JNum 2000000, ''change_24h_eeth'' := JNum 10,
     ''change_24h_percent'' := JNum 1, ''rank_position'' := JNum 2, ''label'' := JStr ''fund'')"

definition whale_b :: jsobj where
  "whale_b = empty_obj(''address'' := JStr ''0xbb'', ''current_balance_eeth'' := JNum 5000,
     ''rank_position'' := JNum 1)"

definition whale_a2 :: jsobj where
  "whale_a2 = empty_obj(''address'' := JStr ''0xaa'', ''current_balance_eeth'' := JNum 700,
     ''current_balance_usd'' := JNum 1400000, ''change_24h_eeth'' := JNum (- 300),
     ''change_24h_percent'' := JNum (- 30), ''rank_position'' := JNum 3)"

definition null_row :: row where
  "null_row = (\<lambda>c. JNull)"

text \<open>Day \<open>200\<close> after the epoch, and three anomalies: resolved 91 and 89 days before it,
  and one detected on day \<open>0\<close> that is still active.\<close>

definition day200 :: int where
  "day200 = 200 * 86400000"

definition resolved_91 :: row where
  "resolved_91 = null_row(''id'' := JNum 1, ''status'' := JStr ''resolved'',
     ''severity'' := JStr ''LOW'', ''detected_at'' := JDate (100 * 86400000),
     ''resolved_at'' := JDate (109 * 86400000), ''view_count'' := JNum 0)"

definition resolved_89 :: row where
  "resolved_89 = null_row(''id'' := JNum 2, ''status'' := JStr ''resolved'',
     ''severity'' := JStr ''HIGH'', ''detected_at'' := JDate (105 * 86400000),
     ''resolved_at'' := JDate (111 * 86400000), ''view_count'' := JNum 4)"

definition active_200 :: row where
  "active_200 = null_row(''id'' := JNum 3, ''status'' := JStr ''active'',
     ''severity'' := JStr ''CRITICAL'', ''detected_at'' := JDate 0, ''view_count'' := JNum 7)"

definition viewed_max :: row where
  "viewed_max = null_row(''id'' := JNum 6, ''status'' := JStr ''active'',
     ''view_count'' := JNum 2147483647)"

definition never_counted :: row where
  "never_counted = null_row(''id'' := JNum 7, ''status'' := JStr ''active'')"

definition db_views :: database where
  "db_views = db0\<lparr>anomalies := [viewed_max, never_counted]\<rparr>"

definition whale_rank_overflow :: jsobj where
  "whale_rank_overflow = empty_obj(''address'' := JStr ''0xcc'', ''rank_position'' := JNum 2147483648)"

definition db_retention :: database where
  "db_retention = db0\<lparr>anomalies := [resolved_91, resolved_89, active_200]\<rparr>"

text \<open>Four active anomalies of severities LOW, CRITICAL, HIGH, CRITICAL detected at times
  \<open>10 < 20 < 30 < 40\<close>, and a resolved one.\<close>

definition listed :: "int \<Rightarrow> string \<Rightarrow> int \<Rightarrow> string \<Rightarrow> row" where
  "listed i sev t st = null_row(''id'' := JNum i, ''severity'' := JStr sev,
     ''detected_at'' := JDate t, ''status'' := JStr st)"

definition db_listing :: database where
  "db_listing = db0\<lparr>anomalies :=
     [listed 1 ''LOW'' 10 ''active'', listed 2 ''CRITICAL'' 20 ''active'',
      listed 5 ''CRITICAL'' 25 ''resolved'',
      listed 3 ''HIGH'' 30 ''active'', listed 4 ''CRITICAL'' 40 ''active'']\<rparr>"








section \<open>Properties of the retry policy\<close>

lemma hook_quiet:
  assumes "\<forall>f e k. h = Some f \<longrightarrow> f e k = None"
  shows "hook_throws h e k = None"
  using assms by (cases h) (auto simp: hook_throws_def)

lemma hook_events_eq: "hook_events h e k = (if h \<noteq> None then [OnRetry e k] else [])"
  by (cases h) (auto simp: hook_events_def)

lemma backoff_delay_first: "backoff_delay mul d m a = d" if "a \<le> 1"
  using that by (simp add: backoff_delay_def)

lemma backoff_delay_next:
  assumes "1 \<le> k"
  shows "backoff_delay mul d m (k + 1) = mul (backoff_delay mul d m k) m"
proof -
  have "nat (k + 1 - 1) = Suc (nat (k - 1))" using assms by simp
  then show ?thesis by (simp add: backoff_delay_def)
qed

text \<open>
  The loop entered at attempt \<open>a\<close> with the delay of attempt \<open>a\<close>, when the attempts
  before \<open>n\<close> fail with an error and attempt \<open>n\<close> is the one that ends the run.
\<close>

lemma retry_loop_run:
  assumes "1 \<le> a" "a \<le> n" "n \<le> maxA"
    and "\<forall>k. a \<le> k \<and> k < n \<longrightarrow> fails_with_error (fn k)"
    and "n = maxA \<or> \<not> isl (fn n)"
    and "\<forall>f e k. h = Some f \<longrightarrow> f e k = None"
  shows "retry_loop mul fn maxA m h a (backoff_delay mul d m a) lastE =
    (fn n, concat (map (retried_attempt mul fn (h \<noteq> None) d m) [a..n - 1]) @ [Invoke n])"
  using assms
proof (induction "nat (n - a)" arbitrary: a lastE)
  case 0
  then have an: "a = n" by simp
  show ?case
  proof (cases "fn n")
    case (Inr v)
    then show ?thesis using 0 an by simp
  next
    case (Inl e)
    then have "n = maxA" using 0 by auto
    then show ?thesis using Inl an by (simp add: after_def)
  qed
next
  case (Suc x)
  then have lt: "a < n" by linarith
  then have "fails_with_error (fn a)" using Suc.prems(4) by simp
  then obtain e where e: "fn a = Inl e" "\<not> nullish e"
    by (cases "fn a") (auto simp: fails_with_error_def)
  have q: "hook_throws h e a = None" using Suc.prems(6) by (rule hook_quiet)
  have IH: "retry_loop mul fn maxA m h (a + 1) (backoff_delay mul d m (a + 1)) e =
    (fn n, concat (map (retried_attempt mul fn (h \<noteq> None) d m) [a + 1..n - 1]) @ [Invoke n])"
    using Suc.hyps(2) Suc.prems lt by (intro Suc.hyps(1)) auto
  have up: "[a..n - 1] = a # [a + 1..n - 1]" using lt by (simp add: upto_rec1)
  have step: "retry_loop mul fn maxA m h a (backoff_delay mul d m a) lastE =
     after (Invoke a # hook_events h e a @ [Sleep (backoff_delay mul d m a)])
       (retry_loop mul fn maxA m h (a + 1) (mul (backoff_delay mul d m a) m) e)"
    using lt Suc.prems(3) e q by (subst retry_loop.simps) simp
  show ?case
    unfolding step backoff_delay_next[OF Suc.prems(1), symmetric] IH up
    using e by (simp add: after_def hook_events_eq retried_attempt_def)
qed

text \<open>
  Every run with at least one attempt has an attempt that ends it: the first one that
  does not fail with an error, or the last attempt allowed.
\<close>

lemma ending_attempt_exists:
  assumes "1 \<le> (maxA :: int)"
  shows "\<exists>n. 1 \<le> n \<and> n \<le> maxA \<and> (\<forall>k. 1 \<le> k \<and> k < n \<longrightarrow> P k) \<and> (n = maxA \<or> \<not> P n)"
  using assms
proof (induction maxA rule: int_ge_induct)
  case base
  show ?case by (intro exI[of _ 1]) auto
next
  case (step m)
  then obtain n where n: "1 \<le> n" "n \<le> m" "\<forall>k. 1 \<le> k \<and> k < n \<longrightarrow> P k" "n = m \<or> \<not> P n"
    by blast
  show ?case
  proof (cases "P n")
    case True
    then have nm: "n = m" using n(4) by simp
    have "\<forall>k. 1 \<le> k \<and> k < m + 1 \<longrightarrow> P k"
    proof (intro allI impI)
      fix k assume k: "1 \<le> k \<and> k < m + 1"
      then have "k < n \<or> k = n" using nm by auto
      then show "P k" using n(3) True k by auto
    qed
    then show ?thesis using step.hyps by (intro exI[of _ "m + 1"]) simp
  next
    case False
    then show ?thesis using n by (intro exI[of _ n]) auto
  qed
qed

lemma invocations_append: "invocations (xs @ ys) = invocations xs @ invocations ys"
  by (induction xs rule: invocations.induct) auto

lemma sleeps_append: "sleeps (xs @ ys) = sleeps xs @ sleeps ys"
  by (induction xs rule: sleeps.induct) auto

lemma invocations_retried:
  "invocations (concat (map (retried_attempt mul fn hooked d m) ks)) = ks"
  by (induction ks) (auto simp: invocations_append retried_attempt_def)

lemma sleeps_retried:
  "sleeps (concat (map (retried_attempt mul fn hooked d m) ks)) = map (backoff_delay mul d m) ks"
  by (induction ks) (auto simp: sleeps_append retried_attempt_def)

text \<open>In exact arithmetic the delay is the closed form of the specification.\<close>

lemma backoff_delay_exact:
  "backoff_delay (\<lambda>a b. a * b) d m k = d * m ^ nat (k - 1)" for d m :: "'n :: comm_monoid_mult"
proof -
  have "((\<lambda>x. x * m) ^^ j) d = d * m ^ j" for j
    by (induction j) (simp_all add: ac_simps)
  then show ?thesis by (simp add: backoff_delay_def)
qed

text \<open>
  C3 (as the code has it).  Let attempt \<open>n\<close> be the one that ends the run: attempts \<open>1\<close> to
  \<open>n - 1\<close> fail with an error that is not \<open>undefined\<close> or \<open>null\<close>, and attempt \<open>n\<close>
  succeeds or is the last one allowed (\<open>n = maxAttempts\<close>, default 3); the hook, when
  supplied, does not throw.  Then \<open>retry\<close> invokes the operation exactly at attempts
  \<open>1, ..., n\<close> (so at most \<open>maxAttempts\<close> times); it returns the result of attempt \<open>n\<close>
  when that one succeeds and throws what attempt \<open>n\<close> rejected with otherwise; each
  failing attempt \<open>k < n\<close> is followed by the hook called with its error and \<open>k\<close> (when a
  hook is supplied) and then by a sleep of \<open>delayMs\<close> (default 1000) multiplied \<open>k - 1\<close>
  times by \<open>backoffMultiplier\<close> (default 2); nothing follows the invocation of attempt
  \<open>n\<close>.
\<close>

theorem retry_backoff:
  assumes "maxA = or_default (maxAttempts options) 3"
    and "d = or_default (delayMs options) (literal ar 1000)"
    and "m = or_default (backoffMultiplier options) (literal ar 2)"
    and "1 \<le> n" and "n \<le> maxA"
    and "\<forall>k. 1 \<le> k \<and> k < n \<longrightarrow> fails_with_error (fn k)"
    and "n = maxA \<or> \<not> isl (fn n)"
    and "\<forall>f e k. onRetry options = Some f \<longrightarrow> f e k = None"
  shows "fst (retry ar fn options) = fn n
    \<and> snd (retry ar fn options)
        = concat (map (retried_attempt (multiply ar) fn (onRetry options \<noteq> None) d m) [1..n - 1])
          @ [Invoke n]
    \<and> invocations (snd (retry ar fn options)) = [1..n]
    \<and> sleeps (snd (retry ar fn options)) = map (backoff_delay (multiply ar) d m) [1..n - 1]"
proof -
  have "retry ar fn options =
      retry_loop (multiply ar) fn maxA m (onRetry options) 1 (backoff_delay (multiply ar) d m 1)
        ThrownUndefined"
    unfolding assms(1,2,3) by (simp add: retry_def or_default_def backoff_delay_first)
  also have "\<dots> = (fn n,
      concat (map (retried_attempt (multiply ar) fn (onRetry options \<noteq> None) d m) [1..n - 1])
        @ [Invoke n])"
    by (rule retry_loop_run) (use assms in auto)
  finally have run: "retry ar fn options = (fn n,
      concat (map (retried_attempt (multiply ar) fn (onRetry options \<noteq> None) d m) [1..n - 1])
        @ [Invoke n])" .
  have "[1..n] = [1..n - 1] @ [n]" using assms(4) by (simp add: upto_rec2)
  then show ?thesis
    by (simp add: run invocations_append sleeps_append invocations_retried sleeps_retried)
qed

theorem retry_backoff_witness:
  "retry exact (\<lambda>k. if k < 3 then Inl (Thrown (''timeout'', k)) else Inr (42 :: int))
     \<lparr>maxAttempts = Some 3, delayMs = Some 100, backoffMultiplier = Some 3,
      onRetry = Some (\<lambda>e k. None)\<rparr>
   = (Inr 42,
      [Invoke 1, OnRetry (Thrown (''timeout'', 1)) 1, Sleep 100,
       Invoke 2, OnRetry (Thrown (''timeout'', 2)) 2, Sleep 300,
       Invoke 3])
   \<and> retry exact (\<lambda>k. if k < 3 then Inl (Thrown (''timeout'', k)) else Inr (42 :: int))
     \<lparr>maxAttempts = Some 2, delayMs = None, backoffMultiplier = None, onRetry = None\<rparr>
   = (Inl (Thrown (''timeout'', 2)), [Invoke 1, Sleep 1000, Invoke 2])"
proof -
  let ?fn = "\<lambda>k. if k < 3 then Inl (Thrown (''timeout'', k)) else Inr (42 :: int)"
  let ?o3 = "\<lparr>maxAttempts = Some 3, delayMs = Some (100 :: int), backoffMultiplier = Some (3 :: int),
      onRetry = Some (\<lambda>(e :: (string \<times> int) thrown) (k :: int). None :: (string \<times> int) thrown option)\<rparr>"
  let ?o2 = "\<lparr>maxAttempts = Some 2, delayMs = (None :: int option),
      backoffMultiplier = (None :: int option), onRetry = (None :: (string \<times> int) hook option)\<rparr>"
  have a: "retry exact ?fn ?o3 = (Inr 42,
      [Invoke 1, OnRetry (Thrown (''timeout'', 1)) 1, Sleep 100,
       Invoke 2, OnRetry (Thrown (''timeout'', 2)) 2, Sleep 300,
       Invoke 3])"
    using retry_backoff [of 3 ?o3 100 exact 3 3 ?fn]
    by (simp add: prod_eq_iff or_default_def fails_with_error_def nullish_def retried_attempt_def
        backoff_delay_def exact_def upto.simps)
  have b: "retry exact ?fn ?o2 = (Inl (Thrown (''timeout'', 2)), [Invoke 1, Sleep 1000, Invoke 2])"
    using retry_backoff [of 2 ?o2 1000 exact 2 2 ?fn]
    by (simp add: prod_eq_iff or_default_def fails_with_error_def nullish_def retried_attempt_def
        backoff_delay_def exact_def upto.simps)
  show ?thesis using a b by simp
qed

text \<open>
  The claim as the specification states it fails with a hook that throws: the hook's
  error leaves \<open>retry\<close> after the first attempt, so a success that the second attempt
  would bring is not returned, and when every attempt fails it is not the last failure
  that propagates.
\<close>

theorem retry_hook_throws_counterexample:
  "retry exact (\<lambda>k. if k < 2 then Inl (Thrown ''timeout'') else Inr (42 :: int))
     \<lparr>maxAttempts = Some 3, delayMs = None, backoffMultiplier = None,
      onRetry = Some (\<lambda>e k. Some (Thrown ''hook failed''))\<rparr>
   = (Inl (Thrown ''hook failed''), [Invoke 1, OnRetry (Thrown ''timeout'') 1])
   \<and> retry exact (\<lambda>k. Inl (Thrown ''timeout'') :: string thrown + int)
     \<lparr>maxAttempts = Some 3, delayMs = None, backoffMultiplier = None,
      onRetry = Some (\<lambda>e k. Some (Thrown ''hook failed''))\<rparr>
   = (Inl (Thrown ''hook failed''), [Invoke 1, OnRetry (Thrown ''timeout'') 1])"
  by (simp add: retry_def hook_throws_def hook_events_def)

section \<open>Properties of the upserts\<close>

lemma conflicts_iff:
  assumes "excluded key = T" "T \<noteq> JNull"
  shows "conflicts key excluded r \<longleftrightarrow> r key = T"
  using assms by (auto simp: conflicts_def holds_def sql_eq_def)

lemma on_conflict_fresh:
  assumes "excluded key = T" "T \<noteq> JNull" "\<forall>r\<in>set rows. r key \<noteq> T"
  shows "on_conflict_update key u excluded rows = rows @ [excluded]"
  using assms by (simp add: on_conflict_update_def list_ex_iff conflicts_iff[of excluded key T])

lemma on_conflict_existing:
  assumes "excluded key = T" "T \<noteq> JNull" "\<exists>r\<in>set rows. r key = T"
  shows "on_conflict_update key u excluded rows = map (\<lambda>r. if r key = T then u excluded r else r) rows"
  using assms by (simp add: on_conflict_update_def list_ex_iff conflicts_iff[of excluded key T])

lemma rows_at_map_update:
  assumes "\<And>r. r key = T \<Longrightarrow> f r key = T"
  shows "rows_at key T (map (\<lambda>r. if r key = T then f r else r) rows) = map f (rows_at key T rows)"
  using assms by (induction rows) (auto simp: rows_at_def)

lemma keys_map_update:
  assumes "\<And>r. r key = T \<Longrightarrow> f r key = T"
  shows "map (\<lambda>r. r key) (map (\<lambda>r. if r key = T then f r else r) rows) = map (\<lambda>r. r key) rows"
  using assms by (induction rows) auto

lemma rows_at_fresh: "\<forall>r\<in>set rows. r key \<noteq> T \<Longrightarrow> rows_at key T rows = []"
  by (induction rows) (auto simp: rows_at_def)

lemma unique_on_append_fresh:
  assumes "unique_on key rows" "\<forall>r\<in>set rows. r key \<noteq> x key"
  shows "unique_on key (rows @ [x])"
  using assms by (auto simp: unique_on_def)

lemma unique_on_map_update:
  assumes "unique_on key rows" "\<And>r. r key = T \<Longrightarrow> f r key = T"
  shows "unique_on key (map (\<lambda>r. if r key = T then f r else r) rows)"
proof -
  have "map (\<lambda>r. r key) (map (\<lambda>r. if r key = T then f r else r) rows) = map (\<lambda>r. r key) rows"
    by (rule keys_map_update) (rule assms(2))
  then show ?thesis using assms(1) unfolding unique_on_def by (simp only:)
qed

lemma set_excluded_keeps:
  "c \<notin> set cols \<Longrightarrow> set_excluded cols excluded r c = r c"
  by (simp add: set_excluded_def)

lemma set_excluded_takes:
  "c \<in> set cols \<Longrightarrow> set_excluded cols excluded r c = excluded c"
  by (simp add: set_excluded_def)

lemma those_map_zip:
  "those (map (\<lambda>ca. g (fst ca) (snd ca)) (zip cols args)) = Some vals \<Longrightarrow>
   map_of (zip cols args) c = Some arg \<Longrightarrow>
   \<exists>v. map_of (zip cols vals) c = Some v \<and> g c arg = Some v"
proof (induction cols arbitrary: args vals)
  case Nil
  then show ?case by simp
next
  case (Cons col cols)
  show ?case
  proof (cases args)
    case Nil
    then show ?thesis using Cons.prems by simp
  next
    case (Cons a as)
    then show ?thesis using Cons.prems Cons.IH[of as]
      by (auto split: option.splits if_splits)
  qed
qed

lemma insert_values_stored:
  assumes "insert_values cast sch cols args = Inr r" "map_of (zip cols args) c = Some arg"
  shows "column_value cast sch c arg = Some (r c)"
proof -
  obtain vals where v: "those (map (\<lambda>ca. column_value cast sch (fst ca) (snd ca)) (zip cols args)) = Some vals"
    and r: "r = row_of cols vals"
    using assms(1) by (auto simp: insert_values_def split: option.splits)
  from those_map_zip[of "column_value cast sch" cols args vals c arg, OF v assms(2)]
  show ?thesis using r by (auto simp: row_of_def)
qed

lemma insert_values_unlisted:
  assumes "insert_values cast sch cols args = Inr r" "c \<notin> set cols"
  shows "r c = JNull"
proof -
  obtain vals where r: "r = row_of cols vals"
    using assms(1) by (auto simp: insert_values_def split: option.splits)
  have "map_of (zip cols vals) c = None"
    using assms(2) by (metis map_of_eq_None_iff set_zip_leftD surjective_pairing imageE)
  then show ?thesis using r by (simp add: row_of_def)
qed

lemma check_not_null_accepts:
  assumes "check_not_null cols r = Inr r'"
  shows "r' = r" "\<forall>c\<in>set cols. r c \<noteq> JNull"
  using assms by (auto simp: check_not_null_def find_None_iff split: option.splits)

lemma time_series_params_at:
  assumes "c \<in> set time_series_columns"
  shows "map_of (zip time_series_columns (map Bound (time_series_params now data))) c
       = Some (Bound (snapshot_value now data c))"
proof -
  have "c = ''timestamp'' \<or> c = ''tvl_usd'' \<or> c = ''tvl_eth'' \<or> c = ''tvl_change_percent''
      \<or> c = ''unique_stakers'' \<or> c = ''new_stakers_24h''
      \<or> c = ''deposit_count_24h'' \<or> c = ''withdrawal_count_24h'' \<or> c = ''total_volume_eth_24h''
      \<or> c = ''avg_transaction_size_eth''
      \<or> c = ''withdrawal_queue_size'' \<or> c = ''withdrawal_queue_eth''
      \<or> c = ''avg_withdrawal_wait_time_hours''
      \<or> c = ''eeth_eth_price_ratio'' \<or> c = ''peg_deviation_percent''
      \<or> c = ''avg_gas_price_gwei'' \<or> c = ''median_gas_price_gwei''
      \<or> c = ''total_validators'' \<or> c = ''active_validators''
      \<or> c = ''data_source'' \<or> c = ''collection_status'' \<or> c = ''error_message''"
    using assms by (simp add: time_series_columns_def)
  then show ?thesis
    by (elim disjE)
       (simp_all add: time_series_columns_def time_series_params_def snapshot_value_def)
qed

lemma time_series_proposed_accepts:
  assumes "time_series_proposed cast now drawn data = Inr ex"
  shows "\<forall>c\<in>set time_series_columns. snapshot_stored cast now data c = Some (ex c)"
    and "ex ''id'' = JNum drawn"
    and "ex ''timestamp'' \<noteq> JNull"
proof -
  obtain r where r: "insert_values cast time_series_data_schema time_series_columns
             (map Bound (time_series_params now data)) = Inr r"
    and c: "check_not_null time_series_data_not_null (r(''id'' := JNum drawn)) = Inr ex"
    using assms by (auto simp: time_series_proposed_def split: sum.splits)
  have ex: "ex = r(''id'' := JNum drawn)" using check_not_null_accepts(1)[OF c] .
  show "ex ''id'' = JNum drawn" by (simp add: ex)
  show "ex ''timestamp'' \<noteq> JNull"
    using check_not_null_accepts(2)[OF c] by (simp add: ex time_series_data_not_null_def)
  show "\<forall>c\<in>set time_series_columns. snapshot_stored cast now data c = Some (ex c)"
  proof
    fix c assume m: "c \<in> set time_series_columns"
    then have "c \<noteq> ''id''" by (auto simp: time_series_columns_def)
    then show "snapshot_stored cast now data c = Some (ex c)"
      using insert_values_stored[OF r time_series_params_at[OF m]]
      by (simp add: snapshot_stored_def ex)
  qed
qed

lemma time_series_mutable_columns:
  "c \<in> set time_series_mutable \<Longrightarrow> c \<in> set time_series_columns"
  by (auto simp: time_series_mutable_def time_series_columns_def)

lemma insertTimeSeriesData_accepts:
  assumes "insertTimeSeriesData cast now drawn data db = Inr (ret, db')"
  shows "\<exists>ex. time_series_proposed cast now drawn data = Inr ex
            \<and> time_series_data db' =
                on_conflict_update ''timestamp'' (set_excluded time_series_mutable)
                  ex (time_series_data db)"
  using assms by (auto simp: insertTimeSeriesData_def Let_def split: sum.splits)

text \<open>
  C2 (as the code has it).  A snapshot is inserted when the table has no row for its
  timestamp, and a second snapshot is inserted afterwards, the database accepting both
  statements; the two timestamps are the same instant \<open>T\<close> as the column stores it,
  whether given as a \<open>Date\<close> or as a text.  The table then has exactly one row for \<open>T\<close>
  (one row more than at the start, no timestamp twice): its \<open>tvl_usd\<close>, \<open>tvl_eth\<close>,
  \<open>unique_stakers\<close> and \<open>collection_status\<close> are the stored values of the second snapshot,
  every other inserted column is the stored value of the first snapshot, and its \<open>id\<close> is
  the one the first insert drew.
\<close>

theorem insertTimeSeriesData_idempotent_upsert:
  assumes uniq: "unique_on ''timestamp'' (time_series_data db)"
    and ins1: "insertTimeSeriesData cast now1 id1 first db = Inr (ret1, db1)"
    and ins2: "insertTimeSeriesData cast now2 id2 second db1 = Inr (ret2, db2)"
    and T1: "snapshot_stored cast now1 first ''timestamp'' = Some T"
    and T2: "snapshot_stored cast now2 second ''timestamp'' = Some T"
    and fresh: "\<forall>r\<in>set (time_series_data db). r ''timestamp'' \<noteq> T"
  shows "(\<exists>r. rows_at ''timestamp'' T (time_series_data db2) = [r]
            \<and> (\<forall>c\<in>set time_series_mutable. snapshot_stored cast now2 second c = Some (r c))
            \<and> (\<forall>c\<in>set time_series_columns - set time_series_mutable.
                  snapshot_stored cast now1 first c = Some (r c))
            \<and> r ''id'' = JNum id1)
       \<and> unique_on ''timestamp'' (time_series_data db2)
       \<and> length (time_series_data db2) = length (time_series_data db) + 1"
proof -
  let ?rows = "time_series_data db"
  obtain ex1 where p1: "time_series_proposed cast now1 id1 first = Inr ex1"
    and d1: "time_series_data db1 =
       on_conflict_update ''timestamp'' (set_excluded time_series_mutable) ex1 ?rows"
    using insertTimeSeriesData_accepts[OF ins1] by blast
  obtain ex2 where p2: "time_series_proposed cast now2 id2 second = Inr ex2"
    and d2: "time_series_data db2 =
       on_conflict_update ''timestamp'' (set_excluded time_series_mutable) ex2 (time_series_data db1)"
    using insertTimeSeriesData_accepts[OF ins2] by blast
  let ?upd = "set_excluded time_series_mutable ex2"
  have ts: "''timestamp'' \<in> set time_series_columns" by (simp add: time_series_columns_def)
  have k1: "ex1 ''timestamp'' = T"
    using time_series_proposed_accepts(1)[OF p1] ts T1 by fastforce
  have k2: "ex2 ''timestamp'' = T"
    using time_series_proposed_accepts(1)[OF p2] ts T2 by fastforce
  have Tn: "T \<noteq> JNull" using time_series_proposed_accepts(3)[OF p1] k1 by simp
  have rows1: "time_series_data db1 = ?rows @ [ex1]"
    unfolding d1 using k1 Tn fresh by (rule on_conflict_fresh)
  have "\<exists>r\<in>set (time_series_data db1). r ''timestamp'' = T" using rows1 k1 by simp
  with k2 Tn have rows2: "time_series_data db2 =
      map (\<lambda>r. if r ''timestamp'' = T then ?upd r else r) (time_series_data db1)"
    unfolding d2 by (rule on_conflict_existing)
  have keep: "?upd r ''timestamp'' = T" if "r ''timestamp'' = T" for r
    using that by (simp add: set_excluded_def k2)
  have at1: "rows_at ''timestamp'' T (time_series_data db1) = [ex1]"
    using rows_at_fresh[OF fresh] k1 by (simp add: rows1 rows_at_def)
  have at2: "rows_at ''timestamp'' T (time_series_data db2) = [?upd ex1]"
    unfolding rows2 using rows_at_map_update[of "''timestamp''" T ?upd "time_series_data db1"] keep
    by (simp add: at1)
  have m: "\<forall>c\<in>set time_series_mutable. snapshot_stored cast now2 second c = Some (?upd ex1 c)"
    using time_series_proposed_accepts(1)[OF p2]
    by (simp add: set_excluded_takes time_series_mutable_columns)
  have o: "\<forall>c\<in>set time_series_columns - set time_series_mutable.
      snapshot_stored cast now1 first c = Some (?upd ex1 c)"
    using time_series_proposed_accepts(1)[OF p1] by (simp add: set_excluded_keeps)
  have i: "?upd ex1 ''id'' = JNum id1"
    using time_series_proposed_accepts(2)[OF p1] by (simp add: set_excluded_def time_series_mutable_def)
  have u1: "unique_on ''timestamp'' (time_series_data db1)"
    unfolding rows1 using uniq fresh k1 by (intro unique_on_append_fresh) auto
  have u2: "unique_on ''timestamp'' (time_series_data db2)"
    unfolding rows2 using u1 keep by (rule unique_on_map_update)
  have l: "length (time_series_data db2) = length ?rows + 1"
    by (simp add: rows2 rows1)
  show ?thesis using at2 m o i u2 l by blast
qed

lemmas time_series_eval = time_series_proposed_def insert_values_def time_series_columns_def
  time_series_params_def time_series_data_schema_def to_column_def bind_def js_or_def
  empty_obj_def check_not_null_def time_series_data_not_null_def row_of_def in_int4_def

lemma ts_first_accepted:
  "\<exists>ex. time_series_proposed sample_cast 1700000300000 1 ts_first = Inr ex"
  by (simp add: time_series_eval ts_first_def)

lemmas snapshot_eval = snapshot_stored_def snapshot_value_def time_series_data_schema_def
  to_column_def bind_def js_or_def empty_obj_def

theorem insertTimeSeriesData_idempotent_upsert_witness:
  "\<exists>ret1 db1 ret2 db2 r.
       insertTimeSeriesData sample_cast 1700000300000 1 ts_first db0 = Inr (ret1, db1)
     \<and> insertTimeSeriesData sample_cast 1700000600000 2 ts_second db1 = Inr (ret2, db2)
     \<and> rows_at ''timestamp'' (JDate 1700000000000) (time_series_data db2) = [r]
     \<and> r ''tvl_usd'' = JNum 250 \<and> r ''tvl_eth'' = JNum 9 \<and> r ''unique_stakers'' = JNum 8
     \<and> r ''collection_status'' = JStr ''success''
     \<and> r ''total_validators'' = JNum 3 \<and> r ''data_source'' = JStr ''blockchain''
     \<and> r ''id'' = JNum 1"
proof -
  let ?T = "JDate 1700000000000"
  have "\<exists>ex. time_series_proposed sample_cast 1700000300000 1 ts_first = Inr ex"
    by (rule ts_first_accepted)
  then obtain ex1 where p1: "time_series_proposed sample_cast 1700000300000 1 ts_first = Inr ex1" ..
  have "\<exists>ex. time_series_proposed sample_cast 1700000600000 2 ts_second = Inr ex"
    by (simp add: time_series_eval ts_second_def)
  then obtain ex2 where p2: "time_series_proposed sample_cast 1700000600000 2 ts_second = Inr ex2" ..
  obtain ret1 db1 where i1: "insertTimeSeriesData sample_cast 1700000300000 1 ts_first db0 = Inr (ret1, db1)"
    by (simp add: insertTimeSeriesData_def Let_def p1)
  obtain ret2 db2 where i2: "insertTimeSeriesData sample_cast 1700000600000 2 ts_second db1 = Inr (ret2, db2)"
    by (simp add: insertTimeSeriesData_def Let_def p2)
  have h: "unique_on ''timestamp'' (time_series_data db0)"
    "snapshot_stored sample_cast 1700000300000 ts_first ''timestamp'' = Some ?T"
    "snapshot_stored sample_cast 1700000600000 ts_second ''timestamp'' = Some ?T"
    "\<forall>r\<in>set (time_series_data db0). r ''timestamp'' \<noteq> ?T"
    by (simp_all add: db0_def unique_on_def ts_first_def ts_second_def snapshot_eval)
  from insertTimeSeriesData_idempotent_upsert [OF h(1) i1 i2 h(2,3,4)]
  obtain r where r: "rows_at ''timestamp'' ?T (time_series_data db2) = [r]"
    and m: "\<forall>c\<in>set time_series_mutable. snapshot_stored sample_cast 1700000600000 ts_second c = Some (r c)"
    and o: "\<forall>c\<in>set time_series_columns - set time_series_mutable.
                  snapshot_stored sample_cast 1700000300000 ts_first c = Some (r c)"
    and i: "r ''id'' = JNum 1"
    by blast
  have "r ''tvl_usd'' = JNum 250" "r ''tvl_eth'' = JNum 9" "r ''unique_stakers'' = JNum 8"
    "r ''collection_status'' = JStr ''success''"
    using m by (simp_all add: time_series_mutable_def ts_second_def snapshot_eval in_int4_def)
  moreover have "snapshot_stored sample_cast 1700000300000 ts_first ''total_validators''
        = Some (r ''total_validators'')"
      "snapshot_stored sample_cast 1700000300000 ts_first ''data_source''
        = Some (r ''data_source'')"
    using o by (simp_all add: time_series_mutable_def time_series_columns_def)
  then have "r ''total_validators'' = JNum 3" "r ''data_source'' = JStr ''blockchain''"
    by (simp_all add: ts_first_def snapshot_eval in_int4_def)
  ultimately show ?thesis using r i i1 i2 by blast
qed

text \<open>
  A second insert that the database rejects throws, and the row keeps the values of the
  first: here \<open>unique_stakers\<close> is \<open>2147483648\<close>, which an \<open>INTEGER\<close> column does not hold.
\<close>

theorem insertTimeSeriesData_rejected_counterexample:
  "\<exists>ret1 db1 r.
       insertTimeSeriesData sample_cast 1700000300000 1 ts_first db0 = Inr (ret1, db1)
     \<and> insertTimeSeriesData sample_cast 1700000600000 2 ts_rejected db1 = Inl DataException
     \<and> rows_at ''timestamp'' (JDate 1700000000000) (time_series_data db1) = [r]
     \<and> r ''tvl_usd'' = JNum 100 \<and> r ''tvl_eth'' = JNum 5 \<and> r ''unique_stakers'' = JNum 7
     \<and> r ''collection_status'' = JStr ''partial''"
proof -
  let ?T = "JDate 1700000000000"
  have "\<exists>ex. time_series_proposed sample_cast 1700000300000 1 ts_first = Inr ex"
    by (rule ts_first_accepted)
  then obtain ex1 where p1: "time_series_proposed sample_cast 1700000300000 1 ts_first = Inr ex1" ..
  let ?db1 = "db0\<lparr>time_series_data := [ex1]\<rparr>"
  have i1: "insertTimeSeriesData sample_cast 1700000300000 1 ts_first db0
      = Inr (returning [''id'', ''timestamp''] (filter (conflicts ''timestamp'' ex1) [ex1]), ?db1)"
    by (simp add: insertTimeSeriesData_def Let_def p1 db0_def on_conflict_update_def)
  have p2: "time_series_proposed sample_cast 1700000600000 2 ts_rejected = Inl DataException"
    by (simp add: time_series_eval ts_rejected_def ts_second_def)
  have i2: "insertTimeSeriesData sample_cast 1700000600000 2 ts_rejected ?db1 = Inl DataException"
    by (simp add: insertTimeSeriesData_def p2)
  have s: "snapshot_stored sample_cast 1700000300000 ts_first ''timestamp'' = Some (ex1 ''timestamp'')"
    "snapshot_stored sample_cast 1700000300000 ts_first ''tvl_usd'' = Some (ex1 ''tvl_usd'')"
    "snapshot_stored sample_cast 1700000300000 ts_first ''tvl_eth'' = Some (ex1 ''tvl_eth'')"
    "snapshot_stored sample_cast 1700000300000 ts_first ''unique_stakers'' = Some (ex1 ''unique_stakers'')"
    "snapshot_stored sample_cast 1700000300000 ts_first ''collection_status'' = Some (ex1 ''collection_status'')"
    using time_series_proposed_accepts(1)[OF p1] by (simp_all add: time_series_columns_def)
  then have v: "ex1 ''timestamp'' = ?T" "ex1 ''tvl_usd'' = JNum 100" "ex1 ''tvl_eth'' = JNum 5"
    "ex1 ''unique_stakers'' = JNum 7" "ex1 ''collection_status'' = JStr ''partial''"
    by (simp_all add: ts_first_def snapshot_eval in_int4_def)
  have "rows_at ''timestamp'' ?T (time_series_data ?db1) = [ex1]"
    by (simp add: rows_at_def v)
  then show ?thesis using i1 i2 v by blast
qed

section \<open>Properties of the whale upsert\<close>

lemma rows_at_unique:
  assumes "unique_on key rows" "a \<noteq> JNull"
  shows "length (rows_at key a rows) \<le> 1"
  using assms
proof (induction rows)
  case Nil
  then show ?case by (simp add: rows_at_def)
next
  case (Cons r rows)
  then have u: "unique_on key rows" by (auto simp: unique_on_def split: if_splits)
  show ?case
  proof (cases "r key = a")
    case True
    then have "\<forall>x\<in>set rows. x key \<noteq> a" using Cons.prems by (auto simp: unique_on_def image_iff)
    then have "rows_at key a rows = []" by (rule rows_at_fresh)
    then show ?thesis using True by (simp add: rows_at_def)
  next
    case False
    then show ?thesis using Cons.IH[OF u Cons.prems(2)] by (simp add: rows_at_def)
  qed
qed

lemma rows_at_other_map:
  assumes "a \<noteq> T" "\<And>r. r key = T \<Longrightarrow> f r key = T"
  shows "rows_at key a (map (\<lambda>r. if r key = T then f r else r) rows) = rows_at key a rows"
  using assms by (induction rows) (auto simp: rows_at_def)

lemma on_conflict_other:
  assumes "excluded key = T" "T \<noteq> JNull" "a \<noteq> T" "\<And>r. r key = T \<Longrightarrow> u excluded r key = T"
  shows "rows_at key a (on_conflict_update key u excluded rows) = rows_at key a rows"
proof (cases "\<exists>r\<in>set rows. r key = T")
  case True
  show ?thesis
    unfolding on_conflict_existing[of excluded key T rows u, OF assms(1,2) True]
    using assms(3,4) by (rule rows_at_other_map)
next
  case False
  then have "\<forall>r\<in>set rows. r key \<noteq> T" by simp
  then show ?thesis
    using assms(1,3) by (simp add: on_conflict_fresh[of excluded key T rows u, OF assms(1,2)] rows_at_def)
qed

lemma on_conflict_unique:
  assumes "unique_on key rows" "excluded key = T" "T \<noteq> JNull"
    "\<And>r. r key = T \<Longrightarrow> u excluded r key = T"
  shows "unique_on key (on_conflict_update key u excluded rows)"
proof (cases "\<exists>r\<in>set rows. r key = T")
  case True
  show ?thesis
    unfolding on_conflict_existing[of excluded key T rows u, OF assms(2,3) True]
    using assms(1,4) by (rule unique_on_map_update)
next
  case False
  then have f: "\<forall>r\<in>set rows. r key \<noteq> T" by simp
  show ?thesis
    unfolding on_conflict_fresh[of excluded key T rows u, OF assms(2,3) f]
    using assms(1) f assms(2) by (intro unique_on_append_fresh) auto
qed

lemma on_conflict_at:
  assumes "unique_on key rows" "excluded key = T" "T \<noteq> JNull"
    "\<And>r. r key = T \<Longrightarrow> u excluded r key = T"
  shows "\<exists>r. rows_at key T (on_conflict_update key u excluded rows) = [r]
          \<and> (r = excluded \<or> (\<exists>r0\<in>set rows. r = u excluded r0))"
proof (cases "\<exists>r\<in>set rows. r key = T")
  case True
  then obtain r0 where r0: "r0 \<in> set rows" "r0 key = T" by blast
  then have "r0 \<in> set (rows_at key T rows)" by (simp add: rows_at_def)
  moreover have "length (rows_at key T rows) \<le> 1" using assms(1,3) by (rule rows_at_unique)
  ultimately have one: "rows_at key T rows = [r0]"
    by (cases "rows_at key T rows") auto
  have "rows_at key T (on_conflict_update key u excluded rows) = map (u excluded) (rows_at key T rows)"
    unfolding on_conflict_existing[of excluded key T rows u, OF assms(2,3) True]
    using assms(4) by (rule rows_at_map_update)
  then show ?thesis using one r0 by auto
next
  case False
  then have f: "\<forall>r\<in>set rows. r key \<noteq> T" by simp
  have "rows_at key T (on_conflict_update key u excluded rows) = [excluded]"
    unfolding on_conflict_fresh[of excluded key T rows u, OF assms(2,3) f]
    using rows_at_fresh[OF f] assms(2) by (simp add: rows_at_def)
  then show ?thesis by simp
qed


lemma whale_params_at:
  "map_of (zip whale_columns (map Bound (whale_params data) @ [Direct (JDate now)])) ''address''
     = Some (Bound (data ''address''))"
  "c \<in> set whale_refreshed \<Longrightarrow>
   map_of (zip whale_columns (map Bound (whale_params data) @ [Direct (JDate now)])) c
     = Some (Bound (data c))"
  "map_of (zip whale_columns (map Bound (whale_params data) @ [Direct (JDate now)])) ''last_updated''
     = Some (Direct (JDate now))"
proof -
  show "map_of (zip whale_columns (map Bound (whale_params data) @ [Direct (JDate now)])) ''address''
     = Some (Bound (data ''address''))"
    by (simp add: whale_columns_def whale_params_def)
  show "map_of (zip whale_columns (map Bound (whale_params data) @ [Direct (JDate now)])) ''last_updated''
     = Some (Direct (JDate now))"
    by (simp add: whale_columns_def whale_params_def)
  assume "c \<in> set whale_refreshed"
  then have "c = ''current_balance_eeth'' \<or> c = ''current_balance_usd'' \<or> c = ''change_24h_eeth''
      \<or> c = ''change_24h_percent'' \<or> c = ''rank_position''"
    by (simp add: whale_refreshed_def)
  then show "map_of (zip whale_columns (map Bound (whale_params data) @ [Direct (JDate now)])) c
     = Some (Bound (data c))"
    by (elim disjE) (simp_all add: whale_columns_def whale_params_def)
qed

lemma whale_proposed_accepts:
  assumes "whale_proposed cast now drawn data = Inr ex"
  shows "address_of cast data = Some (ex ''address'')"
    and "ex ''address'' \<noteq> JNull"
    and "\<forall>c\<in>set whale_refreshed.
           column_value cast whale_wallets_schema c (Bound (data c)) = Some (ex c)"
    and "ex ''last_updated'' = JDate now"
proof -
  obtain r where r: "insert_values cast whale_wallets_schema whale_columns
             (map Bound (whale_params data) @ [Direct (JDate now)]) = Inr r"
    and c: "check_not_null whale_wallets_not_null
              (r(''id'' := JNum drawn, ''first_seen'' := JDate now)) = Inr ex"
    using assms by (auto simp: whale_proposed_def split: sum.splits)
  have ex: "ex = r(''id'' := JNum drawn, ''first_seen'' := JDate now)"
    using check_not_null_accepts(1)[OF c] .
  show "address_of cast data = Some (ex ''address'')"
    using insert_values_stored[OF r whale_params_at(1)] by (simp add: address_of_def ex)
  show "ex ''address'' \<noteq> JNull"
    using check_not_null_accepts(2)[OF c] by (simp add: ex whale_wallets_not_null_def)
  show "ex ''last_updated'' = JDate now"
    using insert_values_stored[OF r whale_params_at(3)] by (simp add: ex)
  show "\<forall>c\<in>set whale_refreshed.
           column_value cast whale_wallets_schema c (Bound (data c)) = Some (ex c)"
  proof
    fix c assume m: "c \<in> set whale_refreshed"
    then have "c \<noteq> ''id''" "c \<noteq> ''first_seen''" by (auto simp: whale_refreshed_def)
    then show "column_value cast whale_wallets_schema c (Bound (data c)) = Some (ex c)"
      using insert_values_stored[OF r whale_params_at(2)[OF m]] by (simp add: ex)
  qed
qed

lemma whale_update_address: "whale_update now excluded r ''address'' = r ''address''"
  by (simp add: whale_update_def set_excluded_def whale_refreshed_def)

lemma whale_update_refreshed:
  "c \<in> set whale_refreshed \<Longrightarrow> whale_update now excluded r c = excluded c"
  by (auto simp: whale_update_def set_excluded_def whale_refreshed_def)

lemma whale_update_last_updated: "whale_update now excluded r ''last_updated'' = JDate now"
  by (simp add: whale_update_def)

lemma upsert_step_rejected:
  "whale_proposed cast now drawn data = Inl e \<Longrightarrow> upsert_step cast (now, drawn, data) db = db"
  by (simp add: upsert_step_def upsertWhaleWallet_def)

lemma upsert_step_rows:
  "whale_proposed cast now drawn data = Inr ex \<Longrightarrow>
   whale_wallets (upsert_step cast (now, drawn, data) db) =
     on_conflict_update ''address'' (whale_update now) ex (whale_wallets db)"
  by (simp add: upsert_step_def upsertWhaleWallet_def Let_def)

lemma upsert_step_unique:
  assumes "unique_on ''address'' (whale_wallets db)"
  shows "unique_on ''address'' (whale_wallets (upsert_step cast (now, drawn, data) db))"
proof (cases "whale_proposed cast now drawn data")
  case (Inl e)
  then show ?thesis using assms by (simp add: upsert_step_rejected)
next
  case (Inr ex)
  show ?thesis
    unfolding upsert_step_rows[OF Inr]
    by (rule on_conflict_unique[of "''address''" _ _ "ex ''address''"])
       (simp_all add: assms whale_proposed_accepts(2)[OF Inr] whale_update_address)
qed

lemma upsert_step_other:
  assumes "address_of cast data = Some a \<longrightarrow> isl (whale_proposed cast now drawn data)"
  shows "rows_at ''address'' a (whale_wallets (upsert_step cast (now, drawn, data) db))
       = rows_at ''address'' a (whale_wallets db)"
proof (cases "whale_proposed cast now drawn data")
  case (Inl e)
  then show ?thesis by (simp add: upsert_step_rejected)
next
  case (Inr ex)
  have ne: "a \<noteq> ex ''address''" using assms whale_proposed_accepts(1)[OF Inr] Inr by auto
  show ?thesis
    unfolding upsert_step_rows[OF Inr]
    by (rule on_conflict_other[of _ "''address''" "ex ''address''"])
       (simp_all add: whale_proposed_accepts(2)[OF Inr] whale_update_address ne)
qed

lemma upsert_step_at:
  assumes "unique_on ''address'' (whale_wallets db)"
    and "whale_proposed cast now drawn data = Inr ex"
  shows "\<exists>r. rows_at ''address'' (ex ''address'')
               (whale_wallets (upsert_step cast (now, drawn, data) db)) = [r]
          \<and> (\<forall>c\<in>set whale_refreshed. r c = ex c)
          \<and> r ''last_updated'' = JDate now"
proof -
  have "\<exists>r. rows_at ''address'' (ex ''address'')
            (on_conflict_update ''address'' (whale_update now) ex (whale_wallets db)) = [r]
          \<and> (r = ex \<or> (\<exists>r0\<in>set (whale_wallets db). r = whale_update now ex r0))"
    by (rule on_conflict_at)
       (simp_all add: assms(1) whale_proposed_accepts(2)[OF assms(2)] whale_update_address)
  then obtain r where r: "rows_at ''address'' (ex ''address'')
        (whale_wallets (upsert_step cast (now, drawn, data) db)) = [r]"
    and d: "r = ex \<or> (\<exists>r0\<in>set (whale_wallets db). r = whale_update now ex r0)"
    unfolding upsert_step_rows[OF assms(2)] by blast
  from d have "(\<forall>c\<in>set whale_refreshed. r c = ex c) \<and> r ''last_updated'' = JDate now"
    by (auto simp: whale_proposed_accepts(4)[OF assms(2)]
        whale_update_refreshed whale_update_last_updated)
  with r show ?thesis by blast
qed

lemma upsert_all_append:
  "upsert_all cast (xs @ ys) db = upsert_all cast ys (upsert_all cast xs db)"
  by (induction xs arbitrary: db) auto

lemma upsert_all_unique:
  "unique_on ''address'' (whale_wallets db) \<Longrightarrow>
   unique_on ''address'' (whale_wallets (upsert_all cast calls db))"
proof (induction calls arbitrary: db)
  case Nil
  then show ?case by simp
next
  case (Cons call calls)
  obtain now drawn data where c: "call = (now, drawn, data)" by (cases call)
  show ?case
    unfolding c upsert_all.simps
    by (rule Cons.IH) (rule upsert_step_unique[OF Cons.prems])
qed

lemma upsert_all_other:
  assumes "\<forall>call\<in>set calls. address_of cast (snd (snd call)) = Some a \<longrightarrow>
             isl (whale_proposed cast (fst call) (fst (snd call)) (snd (snd call)))"
  shows "rows_at ''address'' a (whale_wallets (upsert_all cast calls db))
       = rows_at ''address'' a (whale_wallets db)"
  using assms
proof (induction calls arbitrary: db)
  case Nil
  then show ?case by simp
next
  case (Cons call calls)
  obtain now drawn data where c: "call = (now, drawn, data)" by (cases call)
  have "rows_at ''address'' a (whale_wallets (upsert_all cast calls (upsert_step cast (now, drawn, data) db)))
      = rows_at ''address'' a (whale_wallets (upsert_step cast (now, drawn, data) db))"
    using Cons.prems by (intro Cons.IH) simp
  also have "\<dots> = rows_at ''address'' a (whale_wallets db)"
    using Cons.prems c by (intro upsert_step_other) auto
  finally show ?case unfolding c upsert_all.simps .
qed

text \<open>
  C8 (as the code has it).  In any sequence of upserts that starts from a table with no
  address twice, take an upsert that the database accepts, for the address \<open>a\<close> as the
  column stores it, after which no call of the sequence that the database accepts is for
  \<open>a\<close>.  At the end the table has exactly one row for \<open>a\<close>; its current balances, its 24h
  changes and its \<open>rank_position\<close> are the stored values of that upsert, and its
  \<open>last_updated\<close> is the time of that upsert.  No address occurs twice in the table,
  whatever the calls.
\<close>

theorem upsertWhaleWallet_one_row:
  assumes uniq: "unique_on ''address'' (whale_wallets db)"
    and accepted: "upsertWhaleWallet cast now drawn data (upsert_all cast earlier db) = Inr res"
    and addr: "address_of cast data = Some a"
    and later: "\<forall>call\<in>set later. address_of cast (snd (snd call)) = Some a \<longrightarrow>
             isl (whale_proposed cast (fst call) (fst (snd call)) (snd (snd call)))"
  shows "(\<exists>r. rows_at ''address'' a
              (whale_wallets (upsert_all cast (earlier @ [(now, drawn, data)] @ later) db)) = [r]
            \<and> (\<forall>c\<in>set whale_refreshed.
                  column_value cast whale_wallets_schema c (Bound (data c)) = Some (r c))
            \<and> r ''last_updated'' = JDate now)
       \<and> unique_on ''address''
            (whale_wallets (upsert_all cast (earlier @ [(now, drawn, data)] @ later) db))"
proof -
  let ?db1 = "upsert_all cast earlier db"
  let ?call = "(now, drawn, data)"
  obtain ex where p: "whale_proposed cast now drawn data = Inr ex"
    using accepted by (auto simp: upsertWhaleWallet_def split: sum.splits)
  have a: "ex ''address'' = a" using whale_proposed_accepts(1)[OF p] addr by simp
  have u1: "unique_on ''address'' (whale_wallets ?db1)"
    using uniq by (rule upsert_all_unique)
  have run: "upsert_all cast (earlier @ [?call] @ later) db
      = upsert_all cast later (upsert_step cast ?call ?db1)"
    by (simp add: upsert_all_append)
  have "rows_at ''address'' a (whale_wallets (upsert_all cast later (upsert_step cast ?call ?db1)))
      = rows_at ''address'' a (whale_wallets (upsert_step cast ?call ?db1))"
    using later by (rule upsert_all_other)
  moreover have "\<exists>r. rows_at ''address'' a (whale_wallets (upsert_step cast ?call ?db1)) = [r]
          \<and> (\<forall>c\<in>set whale_refreshed.
                  column_value cast whale_wallets_schema c (Bound (data c)) = Some (r c))
          \<and> r ''last_updated'' = JDate now"
    using upsert_step_at[OF u1 p] whale_proposed_accepts(3)[OF p] unfolding a by auto
  moreover have "unique_on ''address''
      (whale_wallets (upsert_all cast (earlier @ [?call] @ later) db))"
    using uniq by (rule upsert_all_unique)
  ultimately show ?thesis unfolding run by simp
qed

lemmas whale_eval = whale_proposed_def insert_values_def whale_columns_def whale_params_def
  whale_wallets_schema_def to_column_def bind_def js_or_def empty_obj_def check_not_null_def
  whale_wallets_not_null_def row_of_def in_int4_def

theorem upsertWhaleWallet_one_row_witness:
  "\<exists>r. rows_at ''address'' (JStr ''0xaa'')
         (whale_wallets (upsert_all sample_cast
            [(1000, 1, whale_a1), (2000, 2, whale_b), (3000, 3, whale_a2), (4000, 4, whale_b),
             (5000, 5, whale_rank_overflow)] db0)) = [r]
       \<and> r ''current_balance_eeth'' = JNum 700 \<and> r ''current_balance_usd'' = JNum 1400000
       \<and> r ''change_24h_eeth'' = JNum (- 300) \<and> r ''change_24h_percent'' = JNum (- 30)
       \<and> r ''rank_position'' = JNum 3 \<and> r ''last_updated'' = JDate 3000"
proof -
  let ?earlier = "[(1000, 1, whale_a1), (2000, 2, whale_b)]"
  let ?later = "[(4000, 4, whale_b), (5000, 5, whale_rank_overflow)]"
  have "\<exists>ex. whale_proposed sample_cast 3000 3 whale_a2 = Inr ex"
    by (simp add: whale_eval whale_a2_def)
  then obtain res where a: "upsertWhaleWallet sample_cast 3000 3 whale_a2
      (upsert_all sample_cast ?earlier db0) = Inr res"
    by (auto simp: upsertWhaleWallet_def Let_def)
  have h: "unique_on ''address'' (whale_wallets db0)"
    "address_of sample_cast whale_a2 = Some (JStr ''0xaa'')"
    "\<forall>call\<in>set ?later. address_of sample_cast (snd (snd call)) = Some (JStr ''0xaa'') \<longrightarrow>
             isl (whale_proposed sample_cast (fst call) (fst (snd call)) (snd (snd call)))"
    by (simp_all add: db0_def unique_on_def address_of_def whale_wallets_schema_def to_column_def
        bind_def empty_obj_def whale_a2_def whale_b_def whale_rank_overflow_def)
  from upsertWhaleWallet_one_row [OF h(1) a h(2,3)]
  obtain r where r: "rows_at ''address'' (JStr ''0xaa'')
         (whale_wallets (upsert_all sample_cast
            (?earlier @ [(3000, 3, whale_a2)] @ ?later) db0)) = [r]"
    and f: "\<forall>c\<in>set whale_refreshed.
                  column_value sample_cast whale_wallets_schema c (Bound (whale_a2 c)) = Some (r c)"
    and l: "r ''last_updated'' = JDate 3000"
    by blast
  have "r ''current_balance_eeth'' = JNum 700" "r ''current_balance_usd'' = JNum 1400000"
    "r ''change_24h_eeth'' = JNum (- 300)" "r ''change_24h_percent'' = JNum (- 30)"
    "r ''rank_position'' = JNum 3"
    using f by (simp_all add: whale_refreshed_def whale_a2_def whale_wallets_schema_def
        to_column_def bind_def empty_obj_def in_int4_def)
  then show ?thesis using r l by simp
qed

text \<open>
  An upsert that the database rejects throws and writes nothing: after the one call for
  \<open>0xcc\<close>, whose \<open>rank_position\<close> is \<open>2147483648\<close>, the table has no row for \<open>0xcc\<close>.
\<close>

theorem upsertWhaleWallet_rejected_counterexample:
  "upsertWhaleWallet sample_cast 1000 1 whale_rank_overflow db0 = Inl DataException
   \<and> rows_at ''address'' (JStr ''0xcc'')
       (whale_wallets (upsert_all sample_cast [(1000, 1, whale_rank_overflow)] db0)) = []"
proof -
  have "whale_proposed sample_cast 1000 1 whale_rank_overflow = Inl DataException"
    by (simp add: whale_eval whale_rank_overflow_def)
  then show ?thesis
    by (simp add: upsertWhaleWallet_def upsert_step_def db0_def rows_at_def)
qed

section \<open>Properties of the anomaly operations\<close>

lemma has_id_iff: "has_id (JNum i) x \<longleftrightarrow> x ''id'' = JNum i"
  by (auto simp: has_id_def holds_def sql_eq_def)

lemma update_where_map:
  assumes "\<forall>x\<in>set rows. cond x \<longrightarrow> f x = Inr (g x)"
  shows "update_where cond f rows = Inr (map (\<lambda>x. if cond x then g x else x) rows)"
  using assms by (induction rows) auto

lemma unique_on_same:
  assumes "unique_on key rows" "x \<in> set rows" "y \<in> set rows" "x key = y key" "x key \<noteq> JNull"
  shows "x = y"
proof -
  have "filter (\<lambda>v. v \<noteq> JNull) (map (\<lambda>r. r key) rows)
      = map (\<lambda>r. r key) (filter (\<lambda>r. r key \<noteq> JNull) rows)"
    by (simp add: filter_map comp_def)
  then have inj: "inj_on (\<lambda>r. r key) (set (filter (\<lambda>r. r key \<noteq> JNull) rows))"
    using assms(1) by (simp add: unique_on_def distinct_map)
  have mx: "x \<in> set (filter (\<lambda>r. r key \<noteq> JNull) rows)"
    and my: "y \<in> set (filter (\<lambda>r. r key \<noteq> JNull) rows)"
    using assms by auto
  have "(\<lambda>r. r key) x = (\<lambda>r. r key) y" using assms(4) by simp
  then show ?thesis using mx my by (rule inj_onD[OF inj])
qed

lemma record_view_counted:
  assumes "r ''view_count'' = JNum n" "n < int4_max"
  shows "record_view now r = Inr (r(''view_count'' := JNum (n + 1), ''last_viewed_at'' := JDate now))"
  using assms by (simp add: record_view_def)

text \<open>
  C9 (as the code has it).  For an anomaly whose identifier is the number \<open>i\<close> that the
  given value denotes as an \<open>INTEGER\<close> (identifiers are unique) and whose \<open>view_count\<close> is
  a number below the largest 32-bit integer, whatever its status: \<open>getAnomalyById\<close>
  returns the row with \<open>view_count\<close> one higher and \<open>last_viewed_at\<close> set to the current
  time, all its other columns (\<open>status\<close> among them) as they were; in the table that row
  replaces the old one, and nothing else changes.
\<close>

theorem getAnomalyById_records_view:
  assumes "unique_on ''id'' (anomalies db)" and "r \<in> set (anomalies db)"
    and "to_column cast Integer ident = Some (JNum i)"
    and "r ''id'' = JNum i" and "r ''view_count'' = JNum n" and "n < int4_max"
  shows "\<exists>r'. getAnomalyById cast now ident db
           = Inr (Some r', db\<lparr>anomalies := map (\<lambda>x. if x = r then r' else x) (anomalies db)\<rparr>)
         \<and> r' ''view_count'' = JNum (n + 1)
         \<and> r' ''last_viewed_at'' = JDate now
         \<and> r' ''status'' = r ''status''
         \<and> (\<forall>c. c \<noteq> ''view_count'' \<and> c \<noteq> ''last_viewed_at'' \<longrightarrow> r' c = r c)"
proof -
  let ?r' = "r(''view_count'' := JNum (n + 1), ''last_viewed_at'' := JDate now)"
  let ?g = "\<lambda>x. if x = r then ?r' else x"
  have only: "x = r" if "x \<in> set (anomalies db)" "x ''id'' = JNum i" for x
    using assms(1) that(1) assms(2) by (rule unique_on_same) (simp_all add: that(2) assms(4))
  have cond: "has_id (JNum i) x \<longleftrightarrow> x = r" if "x \<in> set (anomalies db)" for x
    using only[OF that] assms(4) by (auto simp: has_id_iff)
  have "\<forall>x\<in>set (anomalies db). has_id (JNum i) x \<longrightarrow> record_view now x = Inr (?g x)"
    using cond record_view_counted[of r n now, OF assms(5,6)] by auto
  then have "update_where (has_id (JNum i)) (record_view now) (anomalies db)
      = Inr (map (\<lambda>x. if has_id (JNum i) x then ?g x else x) (anomalies db))"
    by (rule update_where_map)
  also have "map (\<lambda>x. if has_id (JNum i) x then ?g x else x) (anomalies db) = map ?g (anomalies db)"
    by (rule map_cong[OF refl]) (simp add: cond)
  finally have upd: "update_where (has_id (JNum i)) (record_view now) (anomalies db)
      = Inr (map ?g (anomalies db))" .
  have id': "has_id (JNum i) ?r'" using assms(4) by (simp add: has_id_iff)
  have "filter (has_id (JNum i)) (map ?g (anomalies db)) = map ?g (filter (\<lambda>x. x = r) (anomalies db))"
    unfolding filter_map by (rule arg_cong[where f = "map ?g"], rule filter_cong[OF refl])
      (use cond id' in \<open>auto simp: comp_def\<close>)
  moreover have "filter (\<lambda>x. x = r) (anomalies db) \<noteq> []"
    using assms(2) by (simp add: filter_empty_conv)
  moreover have "\<forall>x\<in>set (filter (\<lambda>x. x = r) (anomalies db)). x = r" by simp
  ultimately obtain rest where
    "filter (has_id (JNum i)) (map ?g (anomalies db)) = ?r' # rest"
    by (cases "filter (\<lambda>x. x = r) (anomalies db)") auto
  then have "getAnomalyById cast now ident db
      = Inr (Some ?r', db\<lparr>anomalies := map ?g (anomalies db)\<rparr>)"
    by (simp add: getAnomalyById_def upd assms(3))
  then show ?thesis by (intro exI[of _ ?r']) simp
qed

theorem getAnomalyById_records_view_witness:
  "\<exists>r' db'. getAnomalyById sample_cast 5000 (JStr ''2'') db_retention = Inr (Some r', db')
       \<and> r' ''view_count'' = JNum 5 \<and> r' ''last_viewed_at'' = JDate 5000
       \<and> r' ''status'' = JStr ''resolved'' \<and> r' ''severity'' = JStr ''HIGH''"
proof -
  have h: "unique_on ''id'' (anomalies db_retention)" "resolved_89 \<in> set (anomalies db_retention)"
    "to_column sample_cast Integer (JStr ''2'') = Some (JNum 2)"
    "resolved_89 ''id'' = JNum 2" "resolved_89 ''view_count'' = JNum 4" "(4 :: int) < int4_max"
    by (simp_all add: db_retention_def unique_on_def resolved_91_def resolved_89_def
        active_200_def int4_max_def to_column_def bind_def read_digits_def digit_value_def
        in_int4_def)
  from getAnomalyById_records_view [of db_retention resolved_89 sample_cast "JStr ''2''" 2 4 5000, OF h]
  obtain r' where "getAnomalyById sample_cast 5000 (JStr ''2'') db_retention
           = Inr (Some r', db_retention\<lparr>anomalies :=
               map (\<lambda>x. if x = resolved_89 then r' else x) (anomalies db_retention)\<rparr>)"
    and "r' ''view_count'' = JNum (4 + 1)" and "r' ''last_viewed_at'' = JDate 5000"
    and "\<forall>c. c \<noteq> ''view_count'' \<and> c \<noteq> ''last_viewed_at'' \<longrightarrow> r' c = resolved_89 c"
    by blast
  moreover from this(4) have "r' ''status'' = JStr ''resolved''" "r' ''severity'' = JStr ''HIGH''"
    by (simp_all add: resolved_89_def)
  ultimately show ?thesis by auto
qed

text \<open>
  A view of the anomaly \<open>6\<close>, whose \<open>view_count\<close> is \<open>2147483647\<close>, fails and counts
  nothing; a view of the anomaly \<open>7\<close>, whose \<open>view_count\<close> is \<open>NULL\<close>, sets
  \<open>last_viewed_at\<close> and leaves \<open>view_count\<close> \<open>NULL\<close>.
\<close>

theorem getAnomalyById_view_count_counterexample:
  "getAnomalyById sample_cast 5000 (JNum 6) db_views = Inl DataException
   \<and> (\<exists>r' db'. getAnomalyById sample_cast 5000 (JNum 7) db_views = Inr (Some r', db')
         \<and> never_counted ''view_count'' = JNull
         \<and> r' ''view_count'' = JNull \<and> r' ''last_viewed_at'' = JDate 5000)"
  by (simp add: getAnomalyById_def to_column_def bind_def in_int4_def db_views_def db0_def
      viewed_max_def never_counted_def null_row_def has_id_def holds_def sql_eq_def
      record_view_def int4_max_def)

section \<open>Properties of the retention job\<close>

lemma lt_days_ago:
  "holds (sql_lt v (days_ago now n)) \<longleftrightarrow> older_than now n v"
  by (cases v) (simp_all add: holds_def days_ago_def older_than_def ms_per_day_def ms_per_hour_def)

lemma holds_sql_and: "holds (sql_and p q) \<longleftrightarrow> holds p \<and> holds q"
  by (induction p q rule: sql_and.induct) (auto simp: holds_def)

lemma holds_sql_eq_text: "holds (sql_eq v (JStr s)) \<longleftrightarrow> v = JStr s"
  by (auto simp: holds_def sql_eq_def)

lemma resolved_aged_out:
  "holds (sql_and (sql_eq (r ''status'') (JStr ''resolved''))
                  (sql_lt (r ''resolved_at'') (days_ago now 90))) \<longleftrightarrow> aged_out now r"
  by (simp only: holds_sql_and holds_sql_eq_text lt_days_ago aged_out_def)

text \<open>
  C4.  The cleanup keeps in \<open>time_series_data\<close> and \<open>validator_metrics\<close> exactly the rows
  whose timestamp is not strictly older than 90 days, in \<open>twitter_sentiment\<close> those not
  strictly older than 60 days, and in \<open>anomalies\<close> exactly the rows that are not both
  \<open>resolved\<close> and resolved strictly more than 90 days ago; \<open>whale_wallets\<close> is untouched.
  In particular an anomaly whose status is not \<open>resolved\<close> is kept, whatever its age.
\<close>

theorem cleanup_old_data_retention:
  "time_series_data (cleanupOldData now db)
     = filter (\<lambda>r. \<not> older_than now 90 (r ''timestamp'')) (time_series_data db)
   \<and> validator_metrics (cleanupOldData now db)
     = filter (\<lambda>r. \<not> older_than now 90 (r ''timestamp'')) (validator_metrics db)
   \<and> twitter_sentiment (cleanupOldData now db)
     = filter (\<lambda>r. \<not> older_than now 60 (r ''timestamp'')) (twitter_sentiment db)
   \<and> anomalies (cleanupOldData now db) = filter (\<lambda>r. \<not> aged_out now r) (anomalies db)
   \<and> whale_wallets (cleanupOldData now db) = whale_wallets db
   \<and> (\<forall>r\<in>set (anomalies db).
         r ''status'' \<noteq> JStr ''resolved'' \<longrightarrow> r \<in> set (anomalies (cleanupOldData now db)))"
proof -
  have t: "time_series_data (cleanupOldData now db)
     = filter (\<lambda>r. \<not> older_than now 90 (r ''timestamp'')) (time_series_data db)"
    by (simp add: cleanupOldData_def cleanup_old_data_def delete_where_def lt_days_ago)
  have v: "validator_metrics (cleanupOldData now db)
     = filter (\<lambda>r. \<not> older_than now 90 (r ''timestamp'')) (validator_metrics db)"
    by (simp add: cleanupOldData_def cleanup_old_data_def delete_where_def lt_days_ago)
  have s: "twitter_sentiment (cleanupOldData now db)
     = filter (\<lambda>r. \<not> older_than now 60 (r ''timestamp'')) (twitter_sentiment db)"
    by (simp add: cleanupOldData_def cleanup_old_data_def delete_where_def lt_days_ago)
  have a: "anomalies (cleanupOldData now db) = filter (\<lambda>r. \<not> aged_out now r) (anomalies db)"
    by (simp add: cleanupOldData_def cleanup_old_data_def delete_where_def resolved_aged_out)
  have w: "whale_wallets (cleanupOldData now db) = whale_wallets db"
    by (simp add: cleanupOldData_def cleanup_old_data_def)
  have k: "\<forall>r\<in>set (anomalies db).
         r ''status'' \<noteq> JStr ''resolved'' \<longrightarrow> r \<in> set (anomalies (cleanupOldData now db))"
    unfolding a by (simp add: aged_out_def)
  from t v s a w k show ?thesis by (intro conjI)
qed

theorem cleanup_old_data_retention_witness:
  "anomalies (cleanupOldData day200 db_retention) = [resolved_89, active_200]"
proof -
  have "anomalies (cleanupOldData day200 db_retention)
      = filter (\<lambda>r. \<not> aged_out day200 r) (anomalies db_retention)"
    using cleanup_old_data_retention [of day200 db_retention] by blast
  then show ?thesis
    by (simp add: db_retention_def aged_out_def older_than_def day200_def
        resolved_91_def resolved_89_def active_200_def)
qed

section \<open>Properties of the active-anomaly listing\<close>

lemma severity_key:
  "asc_nulls_last (severity_case v) = (if urgency v < 4 then (0, int (urgency v) + 1) else (1, 0))"
  by (simp add: severity_case_def urgency_def)

lemma urgency_le: "urgency v \<le> 4"
  by (simp add: urgency_def)

lemma active_order_listed:
  assumes "has_detection_time a" "has_detection_time b" "active_order a \<le> active_order b"
  shows "listed_before a b"
proof -
  obtain s t where st: "a ''detected_at'' = JDate s" "b ''detected_at'' = JDate t"
    using assms(1,2) by (auto simp: has_detection_time_def split: jsval.splits)
  have ua: "urgency (a ''severity'') \<le> 4" and ub: "urgency (b ''severity'') \<le> 4"
    by (rule urgency_le)+
  show ?thesis
    using assms(3) ua ub
    by (auto simp: active_order_def severity_key st listed_before_def detected_def
        less_eq_prod_def split: if_splits)
qed

lemma listed_before_project:
  "listed_before (project active_anomalies_columns a) (project active_anomalies_columns b)
     = listed_before a b"
  by (simp add: listed_before_def detected_def project_def active_anomalies_columns_def)

lemma is_active_iff: "is_active r \<longleftrightarrow> r ''status'' = JStr ''active''"
  by (auto simp: is_active_def holds_def sql_eq_def)

text \<open>
  C5.  With every stored anomaly carrying its detection time, the listing of active
  anomalies consists of exactly the rows whose status is \<open>active\<close> (each once, reduced to
  the columns of the view), and it is ordered: of two rows the earlier one is more urgent
  (CRITICAL before HIGH before MEDIUM before LOW, any other severity after these), or as
  urgent and detected no earlier.
\<close>

theorem active_anomalies_listing:
  assumes "\<forall>r\<in>set (anomalies db). has_detection_time r"
  shows "mset (getActiveAnomalies db)
           = mset (map (project active_anomalies_columns)
                    (filter (\<lambda>r. r ''status'' = JStr ''active'') (anomalies db)))
       \<and> sorted_wrt listed_before (getActiveAnomalies db)"
proof -
  let ?act = "filter is_active (anomalies db)"
  let ?ys = "sort_key active_order ?act"
  have f: "?act = filter (\<lambda>r. r ''status'' = JStr ''active'') (anomalies db)"
    by (rule filter_cong[OF refl]) (simp add: is_active_iff)
  have m: "mset (getActiveAnomalies db)
      = mset (map (project active_anomalies_columns)
          (filter (\<lambda>r. r ''status'' = JStr ''active'') (anomalies db)))"
    unfolding getActiveAnomalies_def active_anomalies_def f[symmetric] by simp
  have "sorted (map active_order ?ys)" by (rule sorted_sort_key)
  then have sw: "sorted_wrt (\<lambda>a b. active_order a \<le> active_order b) ?ys"
    by (simp add: sorted_map)
  have dt: "\<forall>r\<in>set ?ys. has_detection_time r" using assms by simp
  have "sorted_wrt listed_before ?ys"
  proof (rule sorted_wrt_mono_rel[OF _ sw])
    fix x y
    assume "x \<in> set ?ys" "y \<in> set ?ys" "active_order x \<le> active_order y"
    then show "listed_before x y" using dt by (intro active_order_listed) blast+
  qed
  then have "sorted_wrt listed_before (getActiveAnomalies db)"
    by (simp add: getActiveAnomalies_def active_anomalies_def sorted_wrt_map listed_before_project)
  with m show ?thesis by simp
qed

theorem active_anomalies_listing_witness:
  "sorted_wrt listed_before (getActiveAnomalies db_listing)
   \<and> map (\<lambda>r. (r ''id'', r ''severity'', r ''detected_at'')) (getActiveAnomalies db_listing)
     = [(JNum 4, JStr ''CRITICAL'', JDate 40), (JNum 2, JStr ''CRITICAL'', JDate 20),
        (JNum 3, JStr ''HIGH'', JDate 30), (JNum 1, JStr ''LOW'', JDate 10)]"
proof -
  have "\<forall>r\<in>set (anomalies db_listing). has_detection_time r"
    by (simp add: db_listing_def listed_def has_detection_time_def)
  then have "sorted_wrt listed_before (getActiveAnomalies db_listing)"
    using active_anomalies_listing [of db_listing] by simp
  moreover have "map (\<lambda>r. (r ''id'', r ''severity'', r ''detected_at'')) (getActiveAnomalies db_listing)
     = [(JNum 4, JStr ''CRITICAL'', JDate 40), (JNum 2, JStr ''CRITICAL'', JDate 20),
        (JNum 3, JStr ''HIGH'', JDate 30), (JNum 1, JStr ''LOW'', JDate 10)]"
    by (simp add: getActiveAnomalies_def active_anomalies_def db_listing_def listed_def
        is_active_iff active_order_def severity_case_def project_def
        active_anomalies_columns_def null_row_def less_eq_prod_def)
  ultimately show ?thesis by simp
qed

section \<open>Properties of the baseline statistics\<close>





section \<open>Properties of the statement texts\<close>

lemma getAnomalies_composed:
  "getAnomalies_statement filters = composed_statement truthy filters"
  by (cases "truthy (filters ''status'')"; cases "truthy (filters ''severity'')";
      cases "truthy (filters ''type'')"; cases "truthy (filters ''since'')";
      cases "truthy (filters ''limit'')")
     (simp_all add: getAnomalies_statement_def composed_statement_def add_filter_def
        recognized_filters_def)

text \<open>
  C6 (the code at two limits that are no positive integers).  \<open>getTimeSeriesData\<close> writes
  the limit \<open>'1; DROP TABLE anomalies'\<close>, and the limit \<open>-5\<close>, into the text of its statement
  as they are and binds no parameter, and \<open>getSentimentStats\<close> does the same with its
  \<open>hours\<close>; \<open>getTopWhales\<close> and \<open>getAnomalies\<close>, given the same limit, keep it out of the
  text and bind it as a parameter.
\<close>

theorem getTimeSeriesData_embeds_unvalidated_limit:
  "getTimeSeriesData_statement other (JNum 24) (JStr ''1; DROP TABLE anomalies'')
     = (nl @ ''    SELECT * FROM time_series_data'' @ nl @
        ''    WHERE timestamp >= NOW() - INTERVAL '' @ apostrophe @ ''24 hours'' @ apostrophe @ nl @
        ''    ORDER BY timestamp DESC'' @ nl @
        ''    LIMIT 1; DROP TABLE anomalies'' @ nl @ ''  '', [])
   \<and> \<not> positive_integer (JStr ''1; DROP TABLE anomalies'')
   \<and> getTimeSeriesData_statement other JUndefined (JNum (- 5))
     = (nl @ ''    SELECT * FROM time_series_data'' @ nl @
        ''    WHERE timestamp >= NOW() - INTERVAL '' @ apostrophe @ ''24 hours'' @ apostrophe @ nl @
        ''    ORDER BY timestamp DESC'' @ nl @
        ''    LIMIT -5'' @ nl @ ''  '', [])
   \<and> \<not> positive_integer (JNum (- 5))
   \<and> getSentimentStats_statement other (JStr (''0'' @ apostrophe @ '' OR TRUE --''))
     = (nl @
        ''    SELECT'' @ nl @
        ''      AVG(sentiment_score) as avg_sentiment,'' @ nl @
        ''      COUNT(*) FILTER (WHERE sentiment_label = '' @ apostrophe @ ''positive'' @ apostrophe @ '') as positive_count,'' @ nl @
        ''      COUNT(*) FILTER (WHERE sentiment_label = '' @ apostrophe @ ''negative'' @ apostrophe @ '') as negative_count,'' @ nl @
        ''      COUNT(*) FILTER (WHERE sentiment_label = '' @ apostrophe @ ''neutral'' @ apostrophe @ '') as neutral_count,'' @ nl @
        ''      COUNT(*) as total_tweets,'' @ nl @
        ''      SUM(retweet_count) as total_retweets,'' @ nl @
        ''      SUM(like_count) as total_likes'' @ nl @
        ''    FROM twitter_sentiment'' @ nl @
        ''    WHERE timestamp >= NOW() - INTERVAL '' @ apostrophe @ ''0'' @ apostrophe @ '' OR TRUE -- hours'' @ apostrophe @ nl @
        ''  '', [])
   \<and> getTopWhales_statement (JStr ''1; DROP TABLE anomalies'')
     = (nl @ ''    SELECT * FROM whale_wallets'' @ nl @
        ''    ORDER BY current_balance_eeth DESC'' @ nl @
        ''    LIMIT $1'' @ nl @ ''  '', [JStr ''1; DROP TABLE anomalies''])
   \<and> getAnomalies_statement (empty_obj(''limit'' := JStr ''1; DROP TABLE anomalies''))
     = (''SELECT * FROM anomalies WHERE 1=1 ORDER BY detected_at DESC LIMIT $1'',
        [JStr ''1; DROP TABLE anomalies''])"
  by (simp add: getTimeSeriesData_statement_def getSentimentStats_statement_def
      getTopWhales_statement_def getAnomalies_statement_def add_filter_def
      default_param_def show_int_def digit_char_def positive_integer_def empty_obj_def
      max_safe_integer_def)

text \<open>
  C7 (as the code has it).  The statement of \<open>getAnomalies\<close> is the specification's
  composition when "present" is read as "truthy": one numbered clause and one bound
  parameter for each of \<open>status\<close>, \<open>severity\<close>, \<open>type\<close> and \<open>since\<close> that is truthy, then
  \<open>ORDER BY detected_at DESC\<close>, then \<open>LIMIT\<close> with one more parameter exactly when \<open>limit\<close>
  is truthy.
\<close>

theorem getAnomalies_composition:
  "getAnomalies_statement filters = composed_statement truthy filters"
  by (rule getAnomalies_composed)

theorem getAnomalies_composition_witness:
  "getAnomalies_statement
     (empty_obj(''status'' := JStr ''active'', ''since'' := JDate 1700000000000, ''limit'' := JNum 10))
   = (''SELECT * FROM anomalies WHERE 1=1 AND status = $1 AND detected_at >= $2 ORDER BY detected_at DESC LIMIT $3'',
      [JStr ''active'', JDate 1700000000000, JNum 10])"
  using getAnomalies_composition [of "empty_obj(''status'' := JStr ''active'',
      ''since'' := JDate 1700000000000, ''limit'' := JNum 10)"]
  by (simp add: composed_statement_def recognized_filters_def empty_obj_def digit_char_def)

text \<open>
  With "present" read as "the filter is set", the claim fails at \<open>{limit: 0}\<close>: the limit
  is there, and the statement has no \<open>LIMIT\<close>.
\<close>

theorem getAnomalies_limit_zero_counterexample:
  "getAnomalies_statement (empty_obj(''limit'' := JNum 0))
     = (''SELECT * FROM anomalies WHERE 1=1 ORDER BY detected_at DESC'', [])
   \<and> composed_statement defined (empty_obj(''limit'' := JNum 0))
     = (''SELECT * FROM anomalies WHERE 1=1 ORDER BY detected_at DESC LIMIT $1'', [JNum 0])
   \<and> getAnomalies_statement (empty_obj(''limit'' := JNum 0))
     \<noteq> composed_statement defined (empty_obj(''limit'' := JNum 0))"
  by (simp add: getAnomalies_statement_def composed_statement_def add_filter_def
      recognized_filters_def empty_obj_def defined_def digit_char_def)

section \<open>Properties of the transaction runner\<close>




section \<open>Further properties\<close>

text \<open>
  With \<open>maxAttempts\<close> below one the loop body never runs: the operation is not
  invoked, and \<open>retry\<close> throws \<open>lastError\<close> while it is still \<open>undefined\<close>.
\<close>

theorem retry_no_attempt:
  assumes "or_default (maxAttempts options) 3 < 1"
  shows "retry ar fn options = (Inl ThrownUndefined, [])"
  using assms by (simp add: retry_def or_default_def split: option.splits)

theorem retry_no_attempt_witness:
  "retry exact (\<lambda>k. Inr (1 :: int))
     \<lparr>maxAttempts = Some 0, delayMs = None, backoffMultiplier = None,
      onRetry = (None :: string hook option)\<rparr> = (Inl ThrownUndefined, [])"
  using retry_no_attempt [of "\<lparr>maxAttempts = Some 0, delayMs = None, backoffMultiplier = None,
      onRetry = (None :: string hook option)\<rparr>" exact "\<lambda>k. Inr (1 :: int)"]
  by (simp add: or_default_def)

text \<open>
  An operation that rejects with \<open>undefined\<close> is not retried: the warning reads
  \<open>error.message\<close>, and the \<open>TypeError\<close> of that leaves \<open>retry\<close> before it sleeps.  At
  the last attempt nothing is logged, and \<open>undefined\<close> itself is thrown.
\<close>

theorem retry_undefined_failure:
  "retry exact (\<lambda>k. Inl ThrownUndefined :: string thrown + int)
     \<lparr>maxAttempts = None, delayMs = None, backoffMultiplier = None, onRetry = None\<rparr>
   = (Inl TypeError, [Invoke 1])
   \<and> retry exact (\<lambda>k. Inl ThrownUndefined :: string thrown + int)
     \<lparr>maxAttempts = Some 1, delayMs = None, backoffMultiplier = None, onRetry = None\<rparr>
   = (Inl ThrownUndefined, [Invoke 1])"
  by (simp add: retry_def hook_throws_def hook_events_def nullish_def after_def)

text \<open>The cleanup is idempotent: run again at the same time, it deletes nothing more.\<close>

theorem cleanup_old_data_idempotent:
  "cleanupOldData now (cleanupOldData now db) = cleanupOldData now db"
  by (simp add: cleanupOldData_def cleanup_old_data_def delete_where_def)

text \<open>
  For an identifier no anomaly has, \<open>getAnomalyById\<close> returns \<open>undefined\<close> and changes
  nothing; for a value that is no integer the statement fails.
\<close>

theorem getAnomalyById_unknown:
  assumes "to_column cast Integer ident = Some (JNum i)"
    and "\<forall>r\<in>set (anomalies db). r ''id'' \<noteq> JNum i"
  shows "getAnomalyById cast now ident db = Inr (None, db)"
proof -
  have "update_where (has_id (JNum i)) (record_view now) (anomalies db)
      = Inr (map (\<lambda>x. if has_id (JNum i) x then x else x) (anomalies db))"
    by (rule update_where_map) (use assms(2) in \<open>simp add: has_id_iff\<close>)
  moreover have "filter (has_id (JNum i)) (anomalies db) = []"
    using assms(2) by (simp add: filter_empty_conv has_id_iff)
  ultimately show ?thesis by (simp add: getAnomalyById_def assms(1))
qed

theorem getAnomalyById_unknown_witness:
  "getAnomalyById sample_cast 5000 (JNum 9) db_retention = Inr (None, db_retention)
   \<and> getAnomalyById sample_cast 5000 (JStr ''abc'') db_retention = Inl DataException"
proof -
  have "to_column sample_cast Integer (JNum 9) = Some (JNum 9)"
    "\<forall>r\<in>set (anomalies db_retention). r ''id'' \<noteq> JNum 9"
    by (simp_all add: db_retention_def resolved_91_def resolved_89_def active_200_def
        to_column_def bind_def in_int4_def)
  then have "getAnomalyById sample_cast 5000 (JNum 9) db_retention = Inr (None, db_retention)"
    by (rule getAnomalyById_unknown)
  moreover have "getAnomalyById sample_cast 5000 (JStr ''abc'') db_retention = Inl DataException"
    by (simp add: getAnomalyById_def to_column_def bind_def read_digits_def digit_value_def)
  ultimately show ?thesis by simp
qed

text \<open>An upsert without an address is rejected by the \<open>NOT NULL\<close> constraint.\<close>

theorem upsertWhaleWallet_needs_address:
  "upsertWhaleWallet sample_cast 1000 1 empty_obj db0 = Inl (NotNullViolation ''address'')"
  by (simp add: upsertWhaleWallet_def whale_eval)

end
